theory Spec2Isabelle
  imports Complex_Main "HOL-Library.Multiset"
begin

section \<open>Gene association network: layout engine and interactive renderer\<close>

text \<open>
  The development embeds \<^verbatim>\<open>docs/tumor_network.py\<close>: the Python function
  \<^verbatim>\<open>create_web_network\<close> (load, filter, layout, serialise) and the JavaScript
  renderer it writes into the HTML document (view transform, hit test, relayout).
  Python and JavaScript floating-point numbers are modelled as real numbers, so
  every statement below is about the formulas the code evaluates, free of rounding.
\<close>

datatype node_type = Central | Tissue | Gene

subsection \<open>Layout engine: the table and the library it is read with\<close>

text \<open>
  A row of the input table: the columns \<^verbatim>\<open>Tumor\<close> (tissue label), \<^verbatim>\<open>Gene Symbol\<close>
  and \<^verbatim>\<open>PCC\<close>. A table that lacks one of the three columns, or whose \<^verbatim>\<open>PCC\<close> is not
  numeric, is outside this type: reading it ends in an exception.
\<close>

record row =
  Tumor :: string
  Gene_Symbol :: string
  PCC :: real

text \<open>
  A row of a data frame together with its index label. \<^verbatim>\<open>pd.read_csv\<close> labels the
  rows 0, 1, 2, ...; filtering, sorting and \<^verbatim>\<open>head\<close> keep the label of each row, and
  \<^verbatim>\<open>iterrows()\<close> yields the label with the row.
\<close>

type_synonym frame_row = "nat \<times> row"

datatype py_exception =
    FileNotFoundError
  | ParserError
  | PermissionError
  | OSError
  | KeyError string
  | ValueError string

datatype log_entry =
    Loading string
  | Found nat nat
  | Limiting string nat nat
  | Added nat
  | Saved string
  | Error py_exception
  | Traceback py_exception

text \<open>An exception travels with what had been printed when it was raised.\<close>

type_synonym 'a result = "(py_exception \<times> log_entry list) + 'a"

text \<open>
  What the function takes from outside the repository: the file system, the browser,
  pandas' \<^verbatim>\<open>sort_values('PCC', ascending=False)\<close> and numpy's random generator
  (\<^verbatim>\<open>np_gauss k\<close> is the k-th standard normal variate it hands out).
\<close>

record world =
  read_csv :: "string \<Rightarrow> py_exception + row list"
  sort_values :: "frame_row list \<Rightarrow> frame_row list"
  np_gauss :: "nat \<Rightarrow> real"
  path_exists :: "string \<Rightarrow> bool"
  makedirs :: "string \<Rightarrow> py_exception option"
  write_text :: "string \<Rightarrow> py_exception option"
  webbrowser_open :: "string \<Rightarrow> py_exception option"

text \<open>
  What the documentation of \<^verbatim>\<open>sort_values\<close> promises for the call the code makes
  (default \<^verbatim>\<open>kind\<close>): the same rows, in descending order of \<^verbatim>\<open>PCC\<close>.
\<close>

definition sorts_descending :: "(frame_row list \<Rightarrow> frame_row list) \<Rightarrow> bool" where
  "sorts_descending srt \<longleftrightarrow>
     (\<forall>xs. mset (srt xs) = mset xs
         \<and> sorted_wrt (\<lambda>a b. PCC (snd b) \<le> PCC (snd a)) (srt xs))"

subsection \<open>Layout engine: the graph\<close>

text \<open>
  A \<^verbatim>\<open>networkx.Graph\<close>: the node dictionary and the adjacency dictionary, both in
  insertion order. The attribute dictionary of a node holds the keys the code sets.
\<close>

record attrs =
  attr_node_type :: "node_type option"
  attr_gene_count :: "nat option"
  attr_pcc :: "real option"
  attr_tissue :: "string option"

record graph =
  g_node :: "(string \<times> attrs) list"
  g_adj :: "(string \<times> (string \<times> real) list) list"

definition no_attrs :: attrs where
  "no_attrs = \<lparr>attr_node_type = None, attr_gene_count = None,
                attr_pcc = None, attr_tissue = None\<rparr>"

definition or_else :: "'a option \<Rightarrow> 'a option \<Rightarrow> 'a option" where
  "or_else new old = (case new of None \<Rightarrow> old | Some v \<Rightarrow> Some v)"

text \<open>\<^verbatim>\<open>dict.update\<close>: the keys given replace the old values, the others stay.\<close>

definition update_attrs :: "attrs \<Rightarrow> attrs \<Rightarrow> attrs" where
  "update_attrs old new =
     \<lparr>attr_node_type = or_else (attr_node_type new) (attr_node_type old),
      attr_gene_count = or_else (attr_gene_count new) (attr_gene_count old),
      attr_pcc = or_else (attr_pcc new) (attr_pcc old),
      attr_tissue = or_else (attr_tissue new) (attr_tissue old)\<rparr>"

definition empty_graph :: graph where
  "empty_graph = \<lparr>g_node = [], g_adj = []\<rparr>"

definition has_node :: "graph \<Rightarrow> string \<Rightarrow> bool" where
  "has_node G n \<longleftrightarrow> n \<in> fst ` set (g_node G)"

definition add_node :: "string \<Rightarrow> attrs \<Rightarrow> graph \<Rightarrow> graph" where
  "add_node n a G =
     (if has_node G n
      then G\<lparr>g_node := map (\<lambda>(k, old). if k = n then (k, update_attrs old a) else (k, old))
                            (g_node G)\<rparr>
      else G\<lparr>g_node := g_node G @ [(n, a)], g_adj := g_adj G @ [(n, [])]\<rparr>)"

text \<open>\<^verbatim>\<open>d[k] = v\<close> on an insertion-ordered dictionary.\<close>

definition dict_set :: "'k \<Rightarrow> 'v \<Rightarrow> ('k \<times> 'v) list \<Rightarrow> ('k \<times> 'v) list" where
  "dict_set k v d =
     (if k \<in> fst ` set d
      then map (\<lambda>(k', v'). if k' = k then (k', v) else (k', v')) d
      else d @ [(k, v)])"

definition set_nbr ::
  "string \<Rightarrow> string \<Rightarrow> real \<Rightarrow> (string \<times> (string \<times> real) list) list
     \<Rightarrow> (string \<times> (string \<times> real) list) list" where
  "set_nbr u v w a =
     map (\<lambda>(k, nbrs). if k = u then (k, dict_set v w nbrs) else (k, nbrs)) a"

definition add_edge :: "string \<Rightarrow> string \<Rightarrow> real \<Rightarrow> graph \<Rightarrow> graph" where
  "add_edge u v w G =
     (let G1 = (if has_node G u then G else add_node u no_attrs G);
          G2 = (if has_node G1 v then G1 else add_node v no_attrs G1)
      in G2\<lparr>g_adj := set_nbr v u w (set_nbr u v w (g_adj G2))\<rparr>)"

text \<open>
  \<^verbatim>\<open>G.edges()\<close>: every node in insertion order with its neighbours in insertion order,
  leaving out the neighbours whose own turn has passed.
\<close>

fun edges_from ::
  "string list \<Rightarrow> (string \<times> (string \<times> real) list) list \<Rightarrow> (string \<times> string \<times> real) list" where
  "edges_from seen [] = []"
| "edges_from seen ((n, nbrs) # rest) =
     map (\<lambda>(v, w). (n, v, w)) (filter (\<lambda>(v, w). v \<notin> set seen) nbrs)
       @ edges_from (n # seen) rest"

definition edges :: "graph \<Rightarrow> (string \<times> string \<times> real) list" where
  "edges G = edges_from [] (g_adj G)"

subsection \<open>Layout engine: filter, tissue anchors, gene selection and placement\<close>

record layout_state =
  G :: graph
  fixed_positions :: "string \<rightharpoonup> real \<times> real"
  genes_added :: nat
  draws :: nat
  out :: "log_entry list"

definition filtered_df :: "row list \<Rightarrow> frame_row list" where
  "filtered_df df = filter (\<lambda>(idx, r). 0.8 \<le> PCC r) (enumerate 0 df)"

text \<open>\<^verbatim>\<open>Series.unique()\<close>: the distinct values in the order of their first appearance.\<close>

fun unique_from :: "'a list \<Rightarrow> 'a list \<Rightarrow> 'a list" where
  "unique_from seen [] = []"
| "unique_from seen (x # xs) =
     (if x \<in> set seen then unique_from seen xs else x # unique_from (x # seen) xs)"

definition unique :: "'a list \<Rightarrow> 'a list" where
  "unique xs = unique_from [] xs"

definition tissue_types :: "frame_row list \<Rightarrow> string list" where
  "tissue_types fdf = unique (map (\<lambda>(idx, r). Tumor r) fdf)"

definition tissue_gene_counts :: "frame_row list \<Rightarrow> string \<Rightarrow> nat" where
  "tissue_gene_counts fdf tissue = length (filter (\<lambda>(idx, r). Tumor r = tissue) fdf)"

definition color_list :: "string list" where
  "color_list =
     [''#4daf4a'', ''#f781bf'', ''#a65628'', ''#984ea3'', ''#999999'', ''#e41a1c'', ''#377eb8'',
      ''#ff7f00'', ''#ffff33'', ''#a6cee3'', ''#1f78b4'', ''#b2df8a'', ''#33a02c'', ''#fb9a99'',
      ''#e31a1c'', ''#fdbf6f'', ''#ff7f00'', ''#cab2d6'', ''#6a3d9a'', ''#ffff99'', ''#b15928'',
      ''#00ffff'']"

fun tissue_colors_from :: "nat \<Rightarrow> string list \<Rightarrow> (string \<rightharpoonup> string) \<Rightarrow> (string \<rightharpoonup> string)" where
  "tissue_colors_from i [] m = m"
| "tissue_colors_from i (tissue # rest) m =
     tissue_colors_from (Suc i) rest (m(tissue \<mapsto> color_list ! (i mod length color_list)))"

definition tissue_colors :: "string list \<Rightarrow> (string \<rightharpoonup> string)" where
  "tissue_colors ts = tissue_colors_from 0 ts Map.empty"

definition radius :: real where
  "radius = 400"

definition golden_angle :: real where
  "golden_angle = pi * (3 - sqrt 5)"

text \<open>The loop of lines 54 to 62, \<^verbatim>\<open>i\<close> being the counter of \<^verbatim>\<open>enumerate\<close>.\<close>

fun place_tissues ::
  "string \<Rightarrow> (string \<Rightarrow> nat) \<Rightarrow> nat \<Rightarrow> string list \<Rightarrow> layout_state \<Rightarrow> layout_state" where
  "place_tissues central_node counts i [] st = st"
| "place_tissues central_node counts i (tissue # rest) st =
     (let angle = real i * golden_angle;
          x = radius * cos angle;
          y = radius * sin angle;
          G1 = add_node tissue
                 (no_attrs\<lparr>attr_node_type := Some Tissue,
                           attr_gene_count := Some (counts tissue)\<rparr>) (G st);
          G2 = add_edge central_node tissue 5 G1
      in place_tissues central_node counts (Suc i) rest
           (st\<lparr>fixed_positions := (fixed_positions st)(tissue \<mapsto> (x, y)), G := G2\<rparr>))"

definition max_genes_per_tissue :: nat where
  "max_genes_per_tissue = 150"

text \<open>The rows of one tissue, sorted by correlation (lines 70 to 75, without the print).\<close>

definition sorted_tissue_genes :: "world \<Rightarrow> frame_row list \<Rightarrow> string \<Rightarrow> frame_row list" where
  "sorted_tissue_genes w fdf tissue =
     sort_values w (filter (\<lambda>(idx, r). Tumor r = tissue) fdf)"

definition tissue_genes :: "world \<Rightarrow> frame_row list \<Rightarrow> string \<Rightarrow> frame_row list" where
  "tissue_genes w fdf tissue =
     (let tg = sorted_tissue_genes w fdf tissue
      in if max_genes_per_tissue < length tg then take max_genes_per_tissue tg else tg)"

text \<open>\<^verbatim>\<open>np.random.normal(loc, scale)\<close>, the k-th draw; numpy refuses a negative scale.\<close>

definition np_random_normal :: "world \<Rightarrow> nat \<Rightarrow> real \<Rightarrow> real \<Rightarrow> py_exception + real" where
  "np_random_normal w k loc scl =
     (if scl < 0 then Inl (ValueError ''scale < 0'') else Inr (loc + scl * np_gauss w k))"

text \<open>The angle and distance of lines 91 and 93, before the noise.\<close>

definition gene_angle :: "nat \<Rightarrow> nat \<Rightarrow> real" where
  "gene_angle idx n = (real idx / real n) * 2 * pi"

definition gene_distance :: "real \<Rightarrow> real" where
  "gene_distance pcc = 50 + (1 - pcc) * 150"

text \<open>
  The body of the loop over \<^verbatim>\<open>tissue_genes.iterrows()\<close> (lines 79 to 107): \<^verbatim>\<open>idx\<close> is
  the index label of the row and \<^verbatim>\<open>n\<close> is \<^verbatim>\<open>len(tissue_genes)\<close>, at least 1 inside
  the loop.
\<close>

definition add_gene ::
  "world \<Rightarrow> string \<Rightarrow> nat \<Rightarrow> frame_row \<Rightarrow> layout_state \<Rightarrow> layout_state result" where
  "add_gene w tissue n ir st =
     (let idx = fst ir;
          gene = Gene_Symbol (snd ir);
          pcc = PCC (snd ir);
          fresh = \<not> has_node (G st) gene;
          G1 = (if fresh
                then add_node gene (no_attrs\<lparr>attr_node_type := Some Gene, attr_pcc := Some pcc,
                                             attr_tissue := Some tissue\<rparr>) (G st)
                else G st);
          G2 = add_edge gene tissue (pcc * 3) G1;
          angle = gene_angle idx n;
          distance = gene_distance pcc;
          noise_scale = 0.3 + 0.6 * (1 - pcc)
      in case np_random_normal w (draws st) 0 noise_scale of
           Inl e \<Rightarrow> Inl (e, out st)
         | Inr n1 \<Rightarrow>
        (case np_random_normal w (Suc (draws st)) 0 noise_scale of
           Inl e \<Rightarrow> Inl (e, out st)
         | Inr n2 \<Rightarrow>
        (let angle_noise = n1 * 0.5;
             distance_noise = n2 * 50;
             cloud_angle = angle + angle_noise;
             cloud_distance = distance + distance_noise
         in case fixed_positions st tissue of
              None \<Rightarrow> Inl (KeyError tissue, out st)
            | Some anchor \<Rightarrow>
                Inr (st\<lparr>G := G2,
                        genes_added := (if fresh then Suc (genes_added st) else genes_added st),
                        draws := Suc (Suc (draws st)),
                        fixed_positions := (fixed_positions st)
                          (gene \<mapsto> (fst anchor + cloud_distance * cos cloud_angle,
                                     snd anchor + cloud_distance * sin cloud_angle))\<rparr>))))"

fun gene_loop ::
  "world \<Rightarrow> string \<Rightarrow> nat \<Rightarrow> frame_row list \<Rightarrow> layout_state \<Rightarrow> layout_state result" where
  "gene_loop w tissue n [] st = Inr st"
| "gene_loop w tissue n (ir # rest) st =
     (case add_gene w tissue n ir st of
        Inl e \<Rightarrow> Inl e
      | Inr st' \<Rightarrow> gene_loop w tissue n rest st')"

text \<open>The loop over \<^verbatim>\<open>tissue_types\<close> of lines 68 to 107.\<close>

fun tissue_loop ::
  "world \<Rightarrow> frame_row list \<Rightarrow> string list \<Rightarrow> layout_state \<Rightarrow> layout_state result" where
  "tissue_loop w fdf [] st = Inr st"
| "tissue_loop w fdf (tissue # rest) st =
     (let tg = sorted_tissue_genes w fdf tissue;
          st1 = (if max_genes_per_tissue < length tg
                 then st\<lparr>out := out st @ [Limiting tissue (length tg) max_genes_per_tissue]\<rparr>
                 else st);
          sel = tissue_genes w fdf tissue
      in case gene_loop w tissue (length sel) sel st1 of
           Inl e \<Rightarrow> Inl e
         | Inr st2 \<Rightarrow> tissue_loop w fdf rest st2)"

subsection \<open>The serialised data model\<close>

text \<open>
  One entry of \<^verbatim>\<open>nodes_data\<close>, which the script reads as \<^verbatim>\<open>nodesData\<close>. The keys every
  entry has are fields; the keys that depend on \<^verbatim>\<open>node_type\<close> are the arguments of the
  constructor: a tissue entry has \<^verbatim>\<open>gene_count\<close> and \<^verbatim>\<open>label\<close>, a gene entry \<^verbatim>\<open>pcc\<close> and
  \<^verbatim>\<open>tissue\<close> (the latter \<^verbatim>\<open>None\<close> when the graph node has no such attribute), the central
  entry \<^verbatim>\<open>label\<close>.
\<close>

datatype node_data =
    CentralData string
  | TissueData nat string
  | GeneData real "string option"

record node =
  node_id :: string
  node_name :: string
  node_data :: node_data
  node_size :: real
  node_color :: string
  node_x :: real
  node_y :: real

fun node_type_of :: "node_data \<Rightarrow> node_type" where
  "node_type_of (CentralData l) = Central"
| "node_type_of (TissueData c l) = Tissue"
| "node_type_of (GeneData p t) = Gene"

definition node_kind :: "node \<Rightarrow> node_type" where
  "node_kind n = node_type_of (node_data n)"

fun pcc_of :: "node_data \<Rightarrow> real" where
  "pcc_of (GeneData p t) = p"
| "pcc_of (TissueData c l) = 0"
| "pcc_of (CentralData l) = 0"

fun tissue_of :: "node_data \<Rightarrow> string option" where
  "tissue_of (GeneData p t) = t"
| "tissue_of (TissueData c l) = None"
| "tissue_of (CentralData l) = None"

record link =
  link_source :: string
  link_target :: string
  link_value :: real

text \<open>Decimal digits of a number, for the f-string of a tissue label.\<close>

fun str_nat :: "nat \<Rightarrow> string" where
  "str_nat n =
     (if n < 10 then [''0123456789'' ! n]
      else str_nat (n div 10) @ [''0123456789'' ! (n mod 10)])"

subsection \<open>Layout engine: serialisation and the function itself\<close>

definition central_entry :: "string \<Rightarrow> real \<times> real \<Rightarrow> node" where
  "central_entry central_node pos =
     \<lparr>node_id = central_node, node_name = central_node,
      node_data = CentralData (central_node @ '' (central)''),
      node_size = 50, node_color = ''red'', node_x = fst pos, node_y = snd pos\<rparr>"

text \<open>
  The loop over \<^verbatim>\<open>G.nodes()\<close> of lines 128 to 158. A missing position is the
  \<^verbatim>\<open>KeyError\<close> of \<^verbatim>\<open>fixed_positions[node]\<close>.
\<close>

fun node_entries ::
  "string \<Rightarrow> (string \<rightharpoonup> string) \<Rightarrow> (string \<rightharpoonup> real \<times> real) \<Rightarrow> (string \<times> attrs) list
     \<Rightarrow> py_exception + node list" where
  "node_entries central_node colors pos [] = Inr []"
| "node_entries central_node colors pos ((n, a) # rest) =
     (if n = central_node then node_entries central_node colors pos rest
      else if attr_node_type a = Some Tissue then
        (case pos n of
           None \<Rightarrow> Inl (KeyError n)
         | Some p \<Rightarrow>
             (case node_entries central_node colors pos rest of
                Inl e \<Rightarrow> Inl e
              | Inr ns \<Rightarrow>
                  Inr (\<lparr>node_id = n, node_name = n,
                        node_data = TissueData (case attr_gene_count a of None \<Rightarrow> 0 | Some c \<Rightarrow> c)
                          (n @ '' (n='' @ str_nat (case attr_gene_count a of None \<Rightarrow> 0 | Some c \<Rightarrow> c)
                             @ '')''),
                        node_size = 25,
                        node_color = (case colors n of None \<Rightarrow> ''#999999'' | Some c \<Rightarrow> c),
                        node_x = fst p, node_y = snd p\<rparr> # ns)))
      else if attr_node_type a = Some Gene then
        (case pos n of
           None \<Rightarrow> Inl (KeyError n)
         | Some p \<Rightarrow>
             (case node_entries central_node colors pos rest of
                Inl e \<Rightarrow> Inl e
              | Inr ns \<Rightarrow>
                  Inr (\<lparr>node_id = n, node_name = n,
                        node_data = GeneData (case attr_pcc a of None \<Rightarrow> 0 | Some p \<Rightarrow> p)
                          (attr_tissue a),
                        node_size = 3,
                        node_color = (case attr_tissue a of
                                        None \<Rightarrow> ''#999999''
                                      | Some t \<Rightarrow> (case colors t of None \<Rightarrow> ''#999999''
                                                   | Some c \<Rightarrow> c)),
                        node_x = fst p, node_y = snd p\<rparr> # ns)))
      else node_entries central_node colors pos rest)"

definition links_data_of :: "graph \<Rightarrow> link list" where
  "links_data_of g =
     map (\<lambda>(u, v, w). \<lparr>link_source = u, link_target = v, link_value = w\<rparr>) (edges g)"

text \<open>
  Lines 18 to 166: everything between reading the table and writing the document.
  \<^verbatim>\<open>lg\<close> is what had been printed before.
\<close>

record network =
  net_G :: graph
  net_positions :: "string \<rightharpoonup> real \<times> real"
  nodes_data :: "node list"
  links_data :: "link list"
  net_out :: "log_entry list"

text \<open>
  Lines 22 to 62: the graph with the central node and the tissue nodes, and the
  positions of both.
\<close>

definition tissue_layout :: "string \<Rightarrow> frame_row list \<Rightarrow> log_entry list \<Rightarrow> layout_state" where
  "tissue_layout central_node fdf lg =
     (let ts = tissue_types fdf;
          log1 = lg @ [Found (length ts) (length fdf)];
          G0 = add_node central_node (no_attrs\<lparr>attr_node_type := Some Central\<rparr>) empty_graph;
          st0 = \<lparr>G = G0, fixed_positions = [central_node \<mapsto> (0, 0)],
                 genes_added = 0, draws = 0, out = log1\<rparr>
      in place_tissues central_node (tissue_gene_counts fdf) 0 ts st0)"

text \<open>Lines 64 to 107: the gene nodes, their edges and their positions.\<close>

definition gene_layout ::
  "world \<Rightarrow> string \<Rightarrow> frame_row list \<Rightarrow> log_entry list \<Rightarrow> layout_state result" where
  "gene_layout w central_node fdf lg =
     tissue_loop w fdf (tissue_types fdf) (tissue_layout central_node fdf lg)"

definition build_network :: "world \<Rightarrow> string \<Rightarrow> row list \<Rightarrow> log_entry list \<Rightarrow> network result" where
  "build_network w central_node df lg =
     (let fdf = filtered_df df;
          colors = tissue_colors (tissue_types fdf)
      in case gene_layout w central_node fdf lg of
           Inl e \<Rightarrow> Inl e
         | Inr st2 \<Rightarrow>
        (let log2 = out st2 @ [Added (genes_added st2)]
         in case fixed_positions st2 central_node of
              None \<Rightarrow> Inl (KeyError central_node, log2)
            | Some cpos \<Rightarrow>
           (case node_entries central_node colors (fixed_positions st2) (g_node (G st2)) of
              Inl e \<Rightarrow> Inl (e, log2)
            | Inr ns \<Rightarrow>
                Inr \<lparr>net_G = G st2, net_positions = fixed_positions st2,
                     nodes_data = central_entry central_node cpos # ns,
                     links_data = links_data_of (G st2),
                     net_out = log2\<rparr>)))"

text \<open>\<^verbatim>\<open>os.path.dirname\<close> on a POSIX path.\<close>

definition dirname :: "string \<Rightarrow> string" where
  "dirname p =
     (let head = rev (dropWhile (\<lambda>c. c \<noteq> CHR ''/'') (rev p))
      in if head \<noteq> [] \<and> head \<noteq> replicate (length head) (CHR ''/'')
         then rev (dropWhile (\<lambda>c. c = CHR ''/'') (rev head))
         else head)"

text \<open>
  What a call leaves behind: the value it returns, or the exception that leaves it; the
  document written, if the writing was reached and succeeded (the node and link arrays
  are what the fixed HTML text is filled with); and what was printed.
\<close>

datatype 'a outcome = Returns 'a | Raises py_exception

record run =
  outcome :: "(graph \<times> (string \<rightharpoonup> real \<times> real)) option outcome"
  written :: "(string \<times> node list \<times> link list) option"
  printed :: "log_entry list"

text \<open>The body of the \<^verbatim>\<open>try\<close> block, lines 17 to 864.\<close>

definition try_body ::
  "world \<Rightarrow> string \<Rightarrow> string \<Rightarrow> string \<Rightarrow> log_entry list
     \<Rightarrow> ((py_exception \<times> log_entry list) + network)
        \<times> (string \<times> node list \<times> link list) option" where
  "try_body w input_file central_node output_file lg =
     (case read_csv w input_file of
        Inl e \<Rightarrow> (Inl (e, lg), None)
      | Inr df \<Rightarrow>
     (case build_network w central_node df lg of
        Inl e \<Rightarrow> (Inl e, None)
      | Inr net \<Rightarrow>
     (let output_dir = dirname output_file
      in case (if output_dir \<noteq> [] \<and> \<not> path_exists w output_dir
               then makedirs w output_dir else None) of
           Some e \<Rightarrow> (Inl (e, net_out net), None)
         | None \<Rightarrow>
        (case write_text w output_file of
           Some e \<Rightarrow> (Inl (e, net_out net), None)
         | None \<Rightarrow>
        (let doc = Some (output_file, nodes_data net, links_data net);
             log1 = net_out net @ [Saved output_file]
         in case webbrowser_open w output_file of
              Some e \<Rightarrow> (Inl (e, log1), doc)
            | None \<Rightarrow> (Inr (net\<lparr>net_out := log1\<rparr>), doc))))))"

text \<open>
  \<^verbatim>\<open>create_web_network\<close>: the print of line 13, the \<^verbatim>\<open>try\<close> block, and the handler
  \<^verbatim>\<open>except Exception\<close> of lines 866 to 870, which every exception of the body reaches.
\<close>

definition create_web_network :: "world \<Rightarrow> string \<Rightarrow> string \<Rightarrow> string \<Rightarrow> run" where
  "create_web_network w input_file central_node output_file =
     (case try_body w input_file central_node output_file [Loading input_file] of
        (Inr net, doc) \<Rightarrow>
          \<lparr>outcome = Returns (Some (net_G net, net_positions net)),
           written = doc, printed = net_out net\<rparr>
      | (Inl (e, lg), doc) \<Rightarrow>
          \<lparr>outcome = Returns None, written = doc, printed = lg @ [Error e, Traceback e]\<rparr>)"

subsection \<open>Renderer: state\<close>

text \<open>
  The script's module-level variables. A node object is known by its index in
  \<^verbatim>\<open>nodesData\<close>. \<^verbatim>\<open>frames\<close> is the sequence of calls of \<^verbatim>\<open>draw()\<close>: each call repaints
  the whole canvas from the node array and the view transform of that moment, which is
  what the entry records. \<^verbatim>\<open>random_calls\<close> counts the calls of \<^verbatim>\<open>Math.random()\<close>, whose
  values the functions below take as the sequence \<^verbatim>\<open>rnd\<close>.
\<close>

record frame =
  frame_nodes :: "node list"
  frame_scale :: real
  frame_offsetX :: real
  frame_offsetY :: real

record renderer =
  nodesData :: "node list"
  width :: real
  height :: real
  scale :: real
  offsetX :: real
  offsetY :: real
  random_calls :: nat
  frames :: "frame list"




subsection \<open>Renderer: drawing and the view transform\<close>

definition draw :: "renderer \<Rightarrow> renderer" where
  "draw r = r\<lparr>frames := frames r @
     [\<lparr>frame_nodes = nodesData r, frame_scale = scale r,
       frame_offsetX = offsetX r, frame_offsetY = offsetY r\<rparr>]\<rparr>"




definition resetView :: "renderer \<Rightarrow> renderer" where
  "resetView r = draw (r\<lparr>scale := 1, offsetX := width r / 2, offsetY := height r / 2\<rparr>)"

definition resizeCanvas :: "real \<Rightarrow> real \<Rightarrow> renderer \<Rightarrow> renderer" where
  "resizeCanvas clientWidth clientHeight r =
     draw (r\<lparr>width := clientWidth, height := clientHeight\<rparr>)"

text \<open>
  The circles that \<^verbatim>\<open>drawNetworkToContext\<close> paints, in the order in which it paints them
  (lines 530 to 559): the gene nodes, then the tissue nodes, then the first central
  node. A circle painted later covers the ones painted before it.
\<close>

definition node_draw_order :: "node list \<Rightarrow> nat list" where
  "node_draw_order ns =
     filter (\<lambda>i. node_kind (ns ! i) = Gene) [0..<length ns]
     @ filter (\<lambda>i. node_kind (ns ! i) = Tissue) [0..<length ns]
     @ (case find (\<lambda>i. node_kind (ns ! i) = Central) [0..<length ns] of
          None \<Rightarrow> [] | Some c \<Rightarrow> [c])"

subsection \<open>Renderer: hit test\<close>

text \<open>
  The loop of \<^verbatim>\<open>getNodeAtPosition\<close>: the counter is one more than the index \<^verbatim>\<open>i\<close> of the
  source, which runs from \<^verbatim>\<open>nodesData.length - 1\<close> down to 0.
\<close>

fun node_at :: "renderer \<Rightarrow> real \<Rightarrow> real \<Rightarrow> nat \<Rightarrow> nat option" where
  "node_at r x y 0 = None"
| "node_at r x y (Suc i) =
     (let node = nodesData r ! i;
          nodeScreenX = node_x node * scale r + offsetX r;
          nodeScreenY = node_y node * scale r + offsetY r;
          size_px = node_size node * scale r;
          distance = sqrt ((x - nodeScreenX)\<^sup>2 + (y - nodeScreenY)\<^sup>2)
      in if distance \<le> size_px then Some i else node_at r x y i)"

definition getNodeAtPosition :: "renderer \<Rightarrow> real \<Rightarrow> real \<Rightarrow> nat option" where
  "getNodeAtPosition r x y = node_at r x y (length (nodesData r))"

subsection \<open>Renderer: relayout and initialisation\<close>

text \<open>
  \<^verbatim>\<open>tissueGenes.sort((a, b) => b.pcc - a.pcc)\<close>: \<^verbatim>\<open>Array.prototype.sort\<close> is stable, and the
  comparator puts the larger \<^verbatim>\<open>pcc\<close> first.
\<close>

definition sort_by_pcc :: "node list \<Rightarrow> nat list \<Rightarrow> nat list" where
  "sort_by_pcc ns idxs = sort_key (\<lambda>i. - pcc_of (node_data (ns ! i))) idxs"

text \<open>
  The inner \<^verbatim>\<open>forEach((gene, idx) => ...)\<close> of \<^verbatim>\<open>optimizeLayout\<close> for the tissue node at
  index \<^verbatim>\<open>t\<close>, over the gene indices still to visit; \<^verbatim>\<open>m\<close> is \<^verbatim>\<open>tissueGenes.length\<close> and
  \<^verbatim>\<open>k\<close> the number of random values drawn so far.
\<close>

fun place_cloud ::
  "(nat \<Rightarrow> real) \<Rightarrow> nat \<Rightarrow> nat \<Rightarrow> nat \<Rightarrow> nat list \<Rightarrow> node list \<times> nat \<Rightarrow> node list \<times> nat" where
  "place_cloud rnd t m idx [] (ns, k) = (ns, k)"
| "place_cloud rnd t m idx (g # rest) (ns, k) =
     (let gene = ns ! g;
          tissue = ns ! t;
          pcc = pcc_of (node_data gene);
          angle = (real idx / real m) * 2 * pi;
          baseDistance = 40 + (1 - pcc) * 100;
          noiseScale = 0.2 + 0.5 * (1 - pcc);
          angleNoise = (rnd k - 0.5) * noiseScale * pi;
          distanceNoise = (rnd (Suc k) * 2 - 1) * noiseScale * 60;
          cloudAngle = angle + angleNoise;
          cloudDistance = max 20 (baseDistance + distanceNoise)
      in place_cloud rnd t m (Suc idx) rest
           (ns[g := gene\<lparr>node_x := node_x tissue + cloudDistance * cos cloudAngle,
                          node_y := node_y tissue + cloudDistance * sin cloudAngle\<rparr>],
            Suc (Suc k)))"

definition tissueGenes :: "node list \<Rightarrow> nat \<Rightarrow> nat list" where
  "tissueGenes ns t =
     sort_by_pcc ns
       (filter (\<lambda>i. node_kind (ns ! i) = Gene
                     \<and> tissue_of (node_data (ns ! i)) = Some (node_name (ns ! t)))
          [0..<length ns])"

text \<open>The outer \<^verbatim>\<open>tissueNodes.forEach\<close>.\<close>

fun relayout :: "(nat \<Rightarrow> real) \<Rightarrow> nat list \<Rightarrow> node list \<times> nat \<Rightarrow> node list \<times> nat" where
  "relayout rnd [] (ns, k) = (ns, k)"
| "relayout rnd (t # rest) (ns, k) =
     relayout rnd rest
       (place_cloud rnd t (length (tissueGenes ns t)) 0 (tissueGenes ns t) (ns, k))"

definition optimizeLayout :: "(nat \<Rightarrow> real) \<Rightarrow> renderer \<Rightarrow> renderer" where
  "optimizeLayout rnd r =
     (let tissueNodes = filter (\<lambda>i. node_kind (nodesData r ! i) = Tissue)
                          [0..<length (nodesData r)];
          (ns, k) = relayout rnd tissueNodes (nodesData r, random_calls r)
      in draw (r\<lparr>nodesData := ns, random_calls := k\<rparr>))"

text \<open>
  \<^verbatim>\<open>initialize\<close>: the legend and the event listeners leave the variables above as they
  are; then the canvas takes the size of its container and the layout is recomputed.
\<close>

definition initialize :: "(nat \<Rightarrow> real) \<Rightarrow> real \<Rightarrow> real \<Rightarrow> renderer \<Rightarrow> renderer" where
  "initialize rnd clientWidth clientHeight r =
     optimizeLayout rnd (resizeCanvas clientWidth clientHeight r)"

text \<open>The variables as the script sets them before it calls \<^verbatim>\<open>initialize\<close>.\<close>

definition script_start :: "node list \<Rightarrow> real \<Rightarrow> real \<Rightarrow> renderer" where
  "script_start ns clientWidth clientHeight =
     \<lparr>nodesData = ns, width = clientWidth, height = clientHeight, scale = 1,
      offsetX = clientWidth / 2, offsetY = clientHeight / 2, random_calls = 0, frames = []\<rparr>"

subsection \<open>Notions used in the statements\<close>

definition tissue_nodes :: "node list \<Rightarrow> node list" where
  "tissue_nodes ns = filter (\<lambda>n. node_kind n = Tissue) ns"

definition gene_nodes :: "node list \<Rightarrow> node list" where
  "gene_nodes ns = filter (\<lambda>n. node_kind n = Gene) ns"

text \<open>The gene nodes whose \<^verbatim>\<open>tissue\<close> attribute is the given label.\<close>

definition genes_of_tissue :: "string \<Rightarrow> node list \<Rightarrow> node list" where
  "genes_of_tissue t ns =
     filter (\<lambda>n. node_kind n = Gene \<and> tissue_of (node_data n) = Some t) ns"

text \<open>An entry of \<^verbatim>\<open>links_data\<close> joins the two identifiers, in either direction.\<close>

definition linked :: "link list \<Rightarrow> string \<Rightarrow> string \<Rightarrow> bool" where
  "linked ls u v \<longleftrightarrow>
     (\<exists>l \<in> set ls. (link_source l = u \<and> link_target l = v)
                 \<or> (link_source l = v \<and> link_target l = u))"

text \<open>The node and link arrays of a result, empty when the call raised.\<close>

definition net_nodes :: "network result \<Rightarrow> node list" where
  "net_nodes res = (case res of Inl e \<Rightarrow> [] | Inr net \<Rightarrow> nodes_data net)"

definition net_links :: "network result \<Rightarrow> link list" where
  "net_links res = (case res of Inl e \<Rightarrow> [] | Inr net \<Rightarrow> links_data net)"

text \<open>The pairs of identifiers that the adjacency dictionary relates.\<close>

definition adj_rel :: "(string \<times> (string \<times> real) list) list \<Rightarrow> (string \<times> string) set" where
  "adj_rel a = {(u, v). \<exists>nbrs w. (u, nbrs) \<in> set a \<and> (v, w) \<in> set nbrs}"

text \<open>
  The shape of a graph that \<^verbatim>\<open>add_node\<close> and \<^verbatim>\<open>add_edge\<close> keep: the node dictionary
  and the adjacency dictionary have the same keys in the same order, each once, and
  adjacency is symmetric.
\<close>

definition wf_graph :: "graph \<Rightarrow> bool" where
  "wf_graph g \<longleftrightarrow>
     distinct (map fst (g_node g)) \<and> map fst (g_adj g) = map fst (g_node g)
     \<and> sym (adj_rel (g_adj g))"

text \<open>
  Every node of type gene stems from a selected row: it has the symbol of a row selected
  for the tissue in its \<^verbatim>\<open>tissue\<close> attribute, and the correlation of that row.
\<close>

definition genes_from_rows :: "world \<Rightarrow> frame_row list \<Rightarrow> graph \<Rightarrow> bool" where
  "genes_from_rows w fdf g \<longleftrightarrow>
     (\<forall>(n, a) \<in> set (g_node g). attr_node_type a = Some Gene \<longrightarrow>
        (\<exists>t idx r. attr_tissue a = Some t \<and> attr_pcc a = Some (PCC r)
            \<and> (idx, r) \<in> set (tissue_genes w fdf t) \<and> Gene_Symbol r = n))"

subsection \<open>Concrete inputs\<close>



text \<open>
  The pointer at canvas position (x, y) lies in the circle of the node at index \<^verbatim>\<open>i\<close>: its
  Euclidean distance to the centre of the node on the screen is at most the radius of
  the node on the screen.
\<close>

definition pointer_in_node :: "renderer \<Rightarrow> real \<Rightarrow> real \<Rightarrow> nat \<Rightarrow> bool" where
  "pointer_in_node r x y i \<longleftrightarrow>
     sqrt ((x - (node_x (nodesData r ! i) * scale r + offsetX r))\<^sup>2
         + (y - (node_y (nodesData r ! i) * scale r + offsetY r))\<^sup>2)
       \<le> node_size (nodesData r ! i) * scale r"

text \<open>
  A node array of the generated shape (central node, tissue nodes, gene nodes) in which
  a gene node lies inside the circle of its tissue node.
\<close>

definition hit_nodes :: "node list" where
  "hit_nodes =
     [\<lparr>node_id = ''GCH1'', node_name = ''GCH1'', node_data = CentralData ''GCH1 (central)'',
       node_size = 50, node_color = ''red'', node_x = 0, node_y = 0\<rparr>,
      \<lparr>node_id = ''TissueA'', node_name = ''TissueA'',
       node_data = TissueData 1 ''TissueA (n=1)'',
       node_size = 25, node_color = ''#4daf4a'', node_x = 400, node_y = 0\<rparr>,
      \<lparr>node_id = ''Gene1'', node_name = ''Gene1'', node_data = GeneData 0.9 (Some ''TissueA''),
       node_size = 3, node_color = ''#4daf4a'', node_x = 410, node_y = 0\<rparr>]"

definition hit_view :: renderer where
  "hit_view = script_start hit_nodes 800 600"

text \<open>A table in which one gene symbol passes the filter under two tissue labels.\<close>

definition two_tissues :: "row list" where
  "two_tissues = [\<lparr>Tumor = ''A'', Gene_Symbol = ''g'', PCC = 0.9\<rparr>,
                  \<lparr>Tumor = ''B'', Gene_Symbol = ''g'', PCC = 0.85\<rparr>]"

text \<open>
  Two functions that meet what \<^verbatim>\<open>sort_values\<close> promises: one keeps rows of equal
  correlation in their original order, the other reverses them.
\<close>

definition sort_desc_stable :: "frame_row list \<Rightarrow> frame_row list" where
  "sort_desc_stable xs = sort_key (\<lambda>(idx, r). - PCC r) xs"


text \<open>
  A world without noise in which every operation succeeds and the table is found at the
  default path.
\<close>

definition quiet_world :: "row list \<Rightarrow> world" where
  "quiet_world df =
     \<lparr>read_csv = (\<lambda>p. if p = ''data/tumor.csv'' then Inr df else Inl FileNotFoundError),
      sort_values = sort_desc_stable, np_gauss = (\<lambda>k. 0),
      path_exists = (\<lambda>p. True), makedirs = (\<lambda>p. None), write_text = (\<lambda>p. None),
      webbrowser_open = (\<lambda>p. None)\<rparr>"

text \<open>The three rows of the end-to-end example.\<close>

definition three_rows :: "row list" where
  "three_rows =
     [\<lparr>Tumor = ''TissueA'', Gene_Symbol = ''Gene1'', PCC = 0.95\<rparr>,
      \<lparr>Tumor = ''TissueA'', Gene_Symbol = ''Gene2'', PCC = 0.81\<rparr>,
      \<lparr>Tumor = ''TissueB'', Gene_Symbol = ''Gene3'', PCC = 0.79\<rparr>]"

text \<open>Two rows of one tissue, the one of lower correlation first.\<close>

definition ascending_rows :: "row list" where
  "ascending_rows =
     [\<lparr>Tumor = ''TissueA'', Gene_Symbol = ''Gene1'', PCC = 0.81\<rparr>,
      \<lparr>Tumor = ''TissueA'', Gene_Symbol = ''Gene2'', PCC = 0.95\<rparr>]"



text \<open>A row whose correlation lies outside [-1, 1], and a world in which writing fails.\<close>

definition bad_pcc_rows :: "row list" where
  "bad_pcc_rows = [\<lparr>Tumor = ''TissueA'', Gene_Symbol = ''Gene1'', PCC = 2\<rparr>]"

definition readonly_world :: "row list \<Rightarrow> world" where
  "readonly_world df = (quiet_world df)\<lparr>write_text := (\<lambda>p. Some PermissionError)\<rparr>"

section \<open>Properties\<close>

subsection \<open>Zoom keeps the point under the cursor\<close>





subsection \<open>Hit test\<close>

lemma node_at_Some:
  "node_at r x y k = Some i \<longleftrightarrow>
     i < k \<and> pointer_in_node r x y i \<and> (\<forall>j. i < j \<and> j < k \<longrightarrow> \<not> pointer_in_node r x y j)"
proof (induction k)
  case 0
  show ?case by simp
next
  case (Suc k)
  show ?case
  proof (cases "pointer_in_node r x y k")
    case True
    then have "node_at r x y (Suc k) = Some k"
      by (simp add: pointer_in_node_def Let_def)
    moreover have "(i < Suc k \<and> pointer_in_node r x y i
        \<and> (\<forall>j. i < j \<and> j < Suc k \<longrightarrow> \<not> pointer_in_node r x y j)) \<longleftrightarrow> i = k"
      using True by (metis less_Suc_eq lessI linorder_neqE_nat not_less_eq)
    ultimately show ?thesis by auto
  next
    case False
    then have "node_at r x y (Suc k) = node_at r x y k"
      by (simp add: pointer_in_node_def Let_def)
    moreover have "(i < Suc k \<and> pointer_in_node r x y i
        \<and> (\<forall>j. i < j \<and> j < Suc k \<longrightarrow> \<not> pointer_in_node r x y j))
      \<longleftrightarrow> (i < k \<and> pointer_in_node r x y i
        \<and> (\<forall>j. i < j \<and> j < k \<longrightarrow> \<not> pointer_in_node r x y j))"
      using False by (metis less_Suc_eq)
    ultimately show ?thesis using Suc.IH by simp
  qed
qed

lemma node_at_None:
  "node_at r x y k = None \<longleftrightarrow> (\<forall>j<k. \<not> pointer_in_node r x y j)"
  by (induction k) (auto simp: pointer_in_node_def Let_def less_Suc_eq)

lemma hit_view_simps:
  "nodesData hit_view = hit_nodes" "scale hit_view = 1"
  "offsetX hit_view = 400" "offsetY hit_view = 300"
  by (simp_all add: hit_view_def script_start_def)

text \<open>
  Claim C6, as the code has it. \<^verbatim>\<open>getNodeAtPosition\<close> walks the node array from its last
  element to its first and returns the first node it meets whose circle on the screen
  contains the pointer (Euclidean distance to the projected centre at most
  \<^verbatim>\<open>node.size * scale\<close>); it returns \<^verbatim>\<open>null\<close> exactly when no circle contains the pointer.
  The array holds the central node, then the tissue nodes, then the gene nodes, so the
  gene nodes are tried first: the smallest node wins, also when a larger node is painted
  over it.
\<close>

theorem getNodeAtPosition_last_hit:
  "(getNodeAtPosition r x y = Some i \<longleftrightarrow>
      i < length (nodesData r) \<and> pointer_in_node r x y i
      \<and> (\<forall>j. i < j \<and> j < length (nodesData r) \<longrightarrow> \<not> pointer_in_node r x y j))
   \<and> (getNodeAtPosition r x y = None \<longleftrightarrow>
        (\<forall>j<length (nodesData r). \<not> pointer_in_node r x y j))"
  unfolding getNodeAtPosition_def by (simp add: node_at_Some node_at_None)

theorem getNodeAtPosition_last_hit_witness:
  "2 < length (nodesData hit_view) \<and> pointer_in_node hit_view 810 300 2
   \<and> getNodeAtPosition hit_view 810 300 = Some 2"
proof -
  have len: "2 < length (nodesData hit_view)"
    by (simp add: hit_view_simps hit_nodes_def)
  have inside: "pointer_in_node hit_view 810 300 2"
    by (simp add: pointer_in_node_def hit_view_simps hit_nodes_def)
  have "length (nodesData hit_view) = 3"
    by (simp add: hit_view_simps hit_nodes_def)
  then have later: "\<forall>j. 2 < j \<and> j < length (nodesData hit_view)
      \<longrightarrow> \<not> pointer_in_node hit_view 810 300 j"
    by auto
  from getNodeAtPosition_last_hit [of hit_view 810 300 2] len inside later
  have "getNodeAtPosition hit_view 810 300 = Some 2" by blast
  with len inside show ?thesis by simp
qed

text \<open>
  Claim C6 as stated fails. The pointer is at canvas position (810, 300), inside the
  circles of the tissue node (index 1) and of the gene node (index 2). The gene is
  painted first and the tissue over it, so walking the nodes in the reverse of the order
  in which they are painted meets the tissue node first; \<^verbatim>\<open>getNodeAtPosition\<close> returns
  the gene node.
\<close>

theorem hit_test_not_reverse_draw_order:
  "node_draw_order (nodesData hit_view) = [2, 1, 0]
   \<and> find (pointer_in_node hit_view 810 300) (rev (node_draw_order (nodesData hit_view))) = Some 1
   \<and> getNodeAtPosition hit_view 810 300 = Some 2"
  by (simp add: getNodeAtPosition_def pointer_in_node_def hit_view_simps hit_nodes_def
        node_draw_order_def node_kind_def upt_rec eval_nat_numeral Let_def)

subsection \<open>Tissue anchors on the golden-angle circle\<close>





lemma unique_from_set: "set (unique_from seen xs) = set xs - set seen"
  by (induction seen xs rule: unique_from.induct) auto


lemma set_unique: "set (unique xs) = set xs"
  by (simp add: unique_def unique_from_set)





lemma two_tissues_types: "tissue_types (filtered_df two_tissues) = [''A'', ''B'']"
  by (simp add: tissue_types_def filtered_df_def two_tissues_def unique_def)


subsection \<open>Sorting, selection and the small examples\<close>

lemma sort_desc_stable_sorted:
  "sorted_wrt (\<lambda>a b. PCC (snd b) \<le> PCC (snd a)) (sort_desc_stable xs)"
proof -
  have "sorted (map (\<lambda>(idx, r). - PCC r) (sort_desc_stable xs))"
    unfolding sort_desc_stable_def by (rule sorted_sort_key)
  then show ?thesis
    by (simp add: sorted_map case_prod_unfold)
qed

lemma sorts_descending_stable: "sorts_descending sort_desc_stable"
  by (simp add: sorts_descending_def sort_desc_stable_sorted) (simp add: sort_desc_stable_def)



lemma mset_pair_cases:
  assumes "mset xs = {#a, b#}"
  shows "xs = [a, b] \<or> xs = [b, a]"
proof (cases xs)
  case Nil
  with assms show ?thesis by simp
next
  case (Cons x ys)
  note c1 = Cons
  show ?thesis
  proof (cases ys)
    case Nil
    with c1 assms show ?thesis by (auto simp: add_eq_conv_ex)
  next
    case (Cons y zs)
    with c1 assms have "size (mset xs) = 2" by simp
    with c1 Cons have "zs = []" by simp
    with c1 Cons assms show ?thesis by (auto simp: add_eq_conv_ex)
  qed
qed

lemma sorts_descending_pair:
  assumes "sorts_descending srt" and "PCC (snd b) < PCC (snd a)"
  shows "srt [a, b] = [a, b]"
proof -
  from assms(1) have m: "mset (srt [a, b]) = {#a, b#}"
    and s: "sorted_wrt (\<lambda>a b. PCC (snd b) \<le> PCC (snd a)) (srt [a, b])"
    by (simp_all add: sorts_descending_def)
  from mset_pair_cases [OF m] s assms(2) show ?thesis by auto
qed

lemma three_rows_filtered:
  "filtered_df three_rows =
     [(0, \<lparr>Tumor = ''TissueA'', Gene_Symbol = ''Gene1'', PCC = 0.95\<rparr>),
      (1, \<lparr>Tumor = ''TissueA'', Gene_Symbol = ''Gene2'', PCC = 0.81\<rparr>)]"
  by (simp add: filtered_df_def three_rows_def)

lemma three_rows_types: "tissue_types (filtered_df three_rows) = [''TissueA'']"
  by (simp add: three_rows_filtered tissue_types_def unique_def)

lemma three_rows_counts:
  "tissue_gene_counts (filtered_df three_rows) ''TissueA'' = 2"
  "length (filtered_df three_rows) = 2"
  by (simp_all add: tissue_gene_counts_def three_rows_filtered)

lemma three_rows_sorted:
  assumes "sorts_descending (sort_values w)"
  shows "sorted_tissue_genes w (filtered_df three_rows) ''TissueA'' =
     [(0, \<lparr>Tumor = ''TissueA'', Gene_Symbol = ''Gene1'', PCC = 0.95\<rparr>),
      (1, \<lparr>Tumor = ''TissueA'', Gene_Symbol = ''Gene2'', PCC = 0.81\<rparr>)]"
proof -
  have "sorted_tissue_genes w (filtered_df three_rows) ''TissueA'' =
     sort_values w [(0, \<lparr>Tumor = ''TissueA'', Gene_Symbol = ''Gene1'', PCC = 0.95\<rparr>),
      (1, \<lparr>Tumor = ''TissueA'', Gene_Symbol = ''Gene2'', PCC = 0.81\<rparr>)]"
    by (simp add: sorted_tissue_genes_def three_rows_filtered)
  also have "\<dots> = [(0, \<lparr>Tumor = ''TissueA'', Gene_Symbol = ''Gene1'', PCC = 0.95\<rparr>),
      (1, \<lparr>Tumor = ''TissueA'', Gene_Symbol = ''Gene2'', PCC = 0.81\<rparr>)]"
    by (rule sorts_descending_pair [OF assms]) simp
  finally show ?thesis .
qed

lemma three_rows_selection:
  assumes "sorts_descending (sort_values w)"
  shows "tissue_genes w (filtered_df three_rows) ''TissueA'' =
     [(0, \<lparr>Tumor = ''TissueA'', Gene_Symbol = ''Gene1'', PCC = 0.95\<rparr>),
      (1, \<lparr>Tumor = ''TissueA'', Gene_Symbol = ''Gene2'', PCC = 0.81\<rparr>)]"
  by (simp add: tissue_genes_def max_genes_per_tissue_def three_rows_sorted [OF assms])

lemmas graph_defs = add_node_def add_edge_def has_node_def set_nbr_def dict_set_def
  no_attrs_def update_attrs_def or_else_def empty_graph_def

lemmas layout_eval = build_network_def gene_layout_def tissue_layout_def tissue_colors_def
  max_genes_per_tissue_def add_gene_def np_random_normal_def gene_angle_def gene_distance_def
  graph_defs central_entry_def links_data_of_def edges_def color_list_def radius_def
  node_kind_def tissue_nodes_def gene_nodes_def Let_def

lemma quiet_world_sorts: "sorts_descending (sort_values (quiet_world df))"
  by (simp add: quiet_world_def sorts_descending_stable)

text \<open>
  Claim C5, as the code has it. Of the three rows (TissueA, Gene1, 0.95),
  (TissueA, Gene2, 0.81), (TissueB, Gene3, 0.79) the third fails the filter, and with it
  the only row of TissueB: the tissue labels are taken from the filtered table, so the
  output has one tissue node, TissueA, the two gene nodes Gene1 and Gene2 and no node for
  Gene3. Each gene is linked to TissueA with its correlation times 3 as the weight.
  This holds with the default central node, for every sort that meets what
  \<^verbatim>\<open>sort_values\<close> promises and whatever the random generator draws.
\<close>

theorem three_rows_network:
  assumes "sorts_descending (sort_values w)"
  shows "\<exists>net. build_network w ''GCH1'' three_rows lg = Inr net
     \<and> map node_id (nodes_data net) = [''GCH1'', ''TissueA'', ''Gene1'', ''Gene2'']
     \<and> map node_id (tissue_nodes (nodes_data net)) = [''TissueA'']
     \<and> map node_id (gene_nodes (nodes_data net)) = [''Gene1'', ''Gene2'']
     \<and> links_data net =
         [\<lparr>link_source = ''GCH1'', link_target = ''TissueA'', link_value = 5\<rparr>,
          \<lparr>link_source = ''TissueA'', link_target = ''Gene1'', link_value = 0.95 * 3\<rparr>,
          \<lparr>link_source = ''TissueA'', link_target = ''Gene2'', link_value = 0.81 * 3\<rparr>]"
  by (simp add: layout_eval three_rows_types three_rows_counts
        three_rows_sorted [OF assms] three_rows_selection [OF assms])

theorem three_rows_network_witness:
  "sorts_descending (sort_values (quiet_world three_rows))
   \<and> map node_id (net_nodes (build_network (quiet_world three_rows) ''GCH1'' three_rows []))
       = [''GCH1'', ''TissueA'', ''Gene1'', ''Gene2'']
   \<and> map link_value (net_links (build_network (quiet_world three_rows) ''GCH1'' three_rows []))
       = [5, 0.95 * 3, 0.81 * 3]"
proof -
  have s: "sorts_descending (sort_values (quiet_world three_rows))"
    by (rule quiet_world_sorts)
  from three_rows_network [OF s, of "[]"] obtain net where n:
    "build_network (quiet_world three_rows) ''GCH1'' three_rows [] = Inr net
     \<and> map node_id (nodes_data net) = [''GCH1'', ''TissueA'', ''Gene1'', ''Gene2'']
     \<and> map node_id (tissue_nodes (nodes_data net)) = [''TissueA'']
     \<and> map node_id (gene_nodes (nodes_data net)) = [''Gene1'', ''Gene2'']
     \<and> links_data net =
         [\<lparr>link_source = ''GCH1'', link_target = ''TissueA'', link_value = 5\<rparr>,
          \<lparr>link_source = ''TissueA'', link_target = ''Gene1'', link_value = 0.95 * 3\<rparr>,
          \<lparr>link_source = ''TissueA'', link_target = ''Gene2'', link_value = 0.81 * 3\<rparr>]" ..
  with s show ?thesis by (simp add: net_nodes_def net_links_def)
qed

text \<open>
  Claim C5 as stated fails: on the three rows the output has one tissue node, not two.
\<close>

theorem three_rows_one_tissue_node:
  "length (tissue_nodes (net_nodes (build_network (quiet_world three_rows) ''GCH1'' three_rows [])))
     = 1
   \<and> length (gene_nodes (net_nodes (build_network (quiet_world three_rows) ''GCH1'' three_rows [])))
     = 2"
  by (simp add: net_nodes_def layout_eval three_rows_types three_rows_counts
        three_rows_sorted [OF quiet_world_sorts] three_rows_selection [OF quiet_world_sorts])

subsection \<open>Gene selection\<close>

lemma tissue_genes_take:
  "tissue_genes w fdf t = take 150 (sort_values w (filter (\<lambda>(idx, r). Tumor r = t) fdf))"
  by (simp add: tissue_genes_def sorted_tissue_genes_def max_genes_per_tissue_def Let_def)

lemma tissue_genes_subset:
  assumes "sorts_descending (sort_values w)"
  shows "set (tissue_genes w fdf t) \<subseteq> set (filter (\<lambda>(idx, r). Tumor r = t) fdf)"
proof -
  from assms have "mset (sort_values w (filter (\<lambda>(idx, r). Tumor r = t) fdf))
      = mset (filter (\<lambda>(idx, r). Tumor r = t) fdf)"
    by (simp add: sorts_descending_def)
  then have "set (sort_values w (filter (\<lambda>(idx, r). Tumor r = t) fdf))
      = set (filter (\<lambda>(idx, r). Tumor r = t) fdf)"
    by (rule mset_eq_setD)
  then show ?thesis
    unfolding tissue_genes_take using set_take_subset by fastforce
qed



lemma tissue_genes_top:
  assumes "sorts_descending (sort_values w)"
    and "a \<in> set (tissue_genes w fdf t)"
    and "b \<in> set (filter (\<lambda>(idx, r). Tumor r = t) fdf)"
    and "b \<notin> set (tissue_genes w fdf t)"
  shows "PCC (snd b) \<le> PCC (snd a)"
proof -
  let ?s = "sort_values w (filter (\<lambda>(idx, r). Tumor r = t) fdf)"
  from assms(1) have m: "mset ?s = mset (filter (\<lambda>(idx, r). Tumor r = t) fdf)"
    and s: "sorted_wrt (\<lambda>a b. PCC (snd b) \<le> PCC (snd a)) ?s"
    by (simp_all add: sorts_descending_def)
  from m have "set ?s = set (filter (\<lambda>(idx, r). Tumor r = t) fdf)"
    by (rule mset_eq_setD)
  with assms(3) have "b \<in> set ?s" by simp
  moreover have "set ?s = set (take 150 ?s) \<union> set (drop 150 ?s)"
    by (metis append_take_drop_id set_append)
  ultimately have b: "b \<in> set (drop 150 ?s)"
    using assms(4) by (simp add: tissue_genes_take)
  from s have "sorted_wrt (\<lambda>a b. PCC (snd b) \<le> PCC (snd a)) (take 150 ?s @ drop 150 ?s)"
    by simp
  then have "\<forall>x \<in> set (take 150 ?s). \<forall>y \<in> set (drop 150 ?s). PCC (snd y) \<le> PCC (snd x)"
    by (simp only: sorted_wrt_append) blast
  with assms(2) b show ?thesis by (simp add: tissue_genes_take)
qed




subsection \<open>The angle of a gene\<close>

lemma ascending_rows_filtered:
  "filtered_df ascending_rows =
     [(0, \<lparr>Tumor = ''TissueA'', Gene_Symbol = ''Gene1'', PCC = 0.81\<rparr>),
      (1, \<lparr>Tumor = ''TissueA'', Gene_Symbol = ''Gene2'', PCC = 0.95\<rparr>)]"
  by (simp add: filtered_df_def ascending_rows_def)

lemma ascending_rows_types: "tissue_types (filtered_df ascending_rows) = [''TissueA'']"
  by (simp add: ascending_rows_filtered tissue_types_def unique_def)

lemma ascending_rows_counts:
  "tissue_gene_counts (filtered_df ascending_rows) ''TissueA'' = 2"
  "length (filtered_df ascending_rows) = 2"
  by (simp_all add: tissue_gene_counts_def ascending_rows_filtered)

lemma ascending_rows_sorted:
  "sorted_tissue_genes (quiet_world df) (filtered_df ascending_rows) ''TissueA'' =
     [(1, \<lparr>Tumor = ''TissueA'', Gene_Symbol = ''Gene2'', PCC = 0.95\<rparr>),
      (0, \<lparr>Tumor = ''TissueA'', Gene_Symbol = ''Gene1'', PCC = 0.81\<rparr>)]"
  by (simp add: sorted_tissue_genes_def ascending_rows_filtered quiet_world_def
        sort_desc_stable_def)

lemma ascending_rows_selection:
  "tissue_genes (quiet_world df) (filtered_df ascending_rows) ''TissueA'' =
     [(1, \<lparr>Tumor = ''TissueA'', Gene_Symbol = ''Gene2'', PCC = 0.95\<rparr>),
      (0, \<lparr>Tumor = ''TissueA'', Gene_Symbol = ''Gene1'', PCC = 0.81\<rparr>)]"
  by (simp add: tissue_genes_def max_genes_per_tissue_def ascending_rows_sorted)

lemma quiet_world_gauss: "np_gauss (quiet_world df) k = 0"
  by (simp add: quiet_world_def)

text \<open>
  Claim C3 on the rows (TissueA, Gene1, 0.81), (TissueA, Gene2, 0.95), without noise.
  Gene2 is first in the sorted selection of two, so by the claim its base angle is
  (0/2) 2 pi = 0 and it lies at (400 + 57.5, 0). The loop takes \<^verbatim>\<open>idx\<close> from
  \<^verbatim>\<open>iterrows()\<close>, which is the label of the row in the table, 1 for Gene2: the angle is
  (1/2) 2 pi = pi and Gene2 lies at (400 - 57.5, 0). The distance 50 + (1 - 0.95) 150
  = 57.5 is as claimed.
\<close>

theorem ascending_rows_first_gene_angle:
  "tissue_genes (quiet_world ascending_rows) (filtered_df ascending_rows) ''TissueA'' =
     [(1, \<lparr>Tumor = ''TissueA'', Gene_Symbol = ''Gene2'', PCC = 0.95\<rparr>),
      (0, \<lparr>Tumor = ''TissueA'', Gene_Symbol = ''Gene1'', PCC = 0.81\<rparr>)]
   \<and> gene_angle 1 2 = pi
   \<and> gene_distance 0.95 = 57.5
   \<and> net_nodes (build_network (quiet_world ascending_rows) ''GCH1'' ascending_rows []) ! 2 =
       \<lparr>node_id = ''Gene2'', node_name = ''Gene2'',
        node_data = GeneData 0.95 (Some ''TissueA''), node_size = 3,
        node_color = ''#4daf4a'', node_x = 400 - 57.5, node_y = 0\<rparr>"
  by (simp add: net_nodes_def layout_eval ascending_rows_types ascending_rows_counts
        ascending_rows_sorted ascending_rows_selection quiet_world_gauss)

subsection \<open>The graph operations keep the graph well formed\<close>

lemma dict_set_map_fst:
  "map fst (map (\<lambda>(k', v'). if k' = k then (k', v) else (k', v')) d) = map fst d"
  by (induction d) auto

lemma dict_set_keys: "fst ` set (dict_set k v d) = insert k (fst ` set d)"
proof (cases "k \<in> fst ` set d")
  case True
  then have "dict_set k v d = map (\<lambda>(k', v'). if k' = k then (k', v) else (k', v')) d"
    by (simp add: dict_set_def)
  then have "map fst (dict_set k v d) = map fst d"
    by (simp only: dict_set_map_fst)
  then have "set (map fst (dict_set k v d)) = set (map fst d)" by simp
  then have "fst ` set (dict_set k v d) = fst ` set d" by (simp only: set_map)
  then show ?thesis using True by auto
next
  case False
  then show ?thesis by (simp add: dict_set_def)
qed

lemma set_nbr_keys: "map fst (set_nbr u v w a) = map fst a"
  by (induction a) (auto simp: set_nbr_def)

lemma adj_rel_keys:
  "adj_rel a = {(u, v). \<exists>nbrs. (u, nbrs) \<in> set a \<and> v \<in> fst ` set nbrs}"
proof -
  have "(\<exists>w. (v, w) \<in> set nbrs) \<longleftrightarrow> v \<in> fst ` set nbrs" for v :: string and nbrs :: "(string \<times> real) list"
    by force
  then show ?thesis unfolding adj_rel_def by simp
qed

lemma adj_rel_Nil: "adj_rel [] = {}"
  by (simp add: adj_rel_def)

lemma adj_rel_Cons:
  "adj_rel ((k, nbrs) # a) = {(k, v) | v. v \<in> fst ` set nbrs} \<union> adj_rel a"
  unfolding adj_rel_keys by auto

lemma adj_rel_append: "adj_rel (a @ b) = adj_rel a \<union> adj_rel b"
  by (auto simp: adj_rel_def)

lemma adj_rel_isolated: "adj_rel [(n, [])] = {}"
  by (simp add: adj_rel_def)

lemma adj_rel_set_nbr:
  "adj_rel (set_nbr u v w a) = adj_rel a \<union> (if u \<in> fst ` set a then {(u, v)} else {})"
proof (induction a)
  case Nil
  show ?case by (simp add: set_nbr_def adj_rel_Nil)
next
  case (Cons e a)
  obtain k nbrs where e: "e = (k, nbrs)" by (cases e)
  have step: "set_nbr u v w (e # a)
      = (if k = u then (k, dict_set v w nbrs) else (k, nbrs)) # set_nbr u v w a"
    by (simp add: set_nbr_def e)
  show ?case
  proof (cases "k = u")
    case True
    with step have "adj_rel (set_nbr u v w (e # a))
        = {(u, x) | x. x \<in> insert v (fst ` set nbrs)} \<union> adj_rel (set_nbr u v w a)"
      by (simp add: adj_rel_Cons dict_set_keys)
    also have "\<dots> = ({(u, x) | x. x \<in> fst ` set nbrs} \<union> adj_rel a) \<union> {(u, v)}"
      using Cons.IH by auto
    finally show ?thesis using True by (simp add: e adj_rel_Cons)
  next
    case False
    with step have "adj_rel (set_nbr u v w (e # a))
        = {(k, x) | x. x \<in> fst ` set nbrs} \<union> adj_rel (set_nbr u v w a)"
      by (simp add: adj_rel_Cons)
    also have "\<dots> = ({(k, x) | x. x \<in> fst ` set nbrs} \<union> adj_rel a)
        \<union> (if u \<in> fst ` set a then {(u, v)} else {})"
      using Cons.IH by auto
    finally show ?thesis using False by (simp add: e adj_rel_Cons)
  qed
qed

lemma wf_graph_empty: "wf_graph empty_graph"
  by (simp add: wf_graph_def empty_graph_def adj_rel_Nil sym_def)

lemma add_node_keys:
  "map fst (g_node (add_node n a g)) = (if has_node g n then map fst (g_node g) else map fst (g_node g) @ [n])"
  by (auto simp: add_node_def case_prod_unfold comp_def intro: map_idI)

lemma add_node_adj_keys:
  "map fst (g_adj (add_node n a g)) = (if has_node g n then map fst (g_adj g) else map fst (g_adj g) @ [n])"
  by (simp add: add_node_def)

lemma add_node_adj_rel: "adj_rel (g_adj (add_node n a g)) = adj_rel (g_adj g)"
  by (simp add: add_node_def adj_rel_append adj_rel_isolated)

lemma has_node_add_node: "has_node (add_node n a g) m \<longleftrightarrow> has_node g m \<or> m = n"
proof -
  have "set (map fst (g_node (add_node n a g))) = set (map fst (g_node g)) \<union> {n}"
    by (auto simp: add_node_keys has_node_def)
  then show ?thesis by (auto simp: has_node_def)
qed

lemma wf_graph_add_node: "wf_graph g \<Longrightarrow> wf_graph (add_node n a g)"
  by (auto simp: wf_graph_def add_node_keys add_node_adj_keys add_node_adj_rel has_node_def)

lemma add_node_attrs:
  assumes "(m, b) \<in> set (g_node (add_node n a g))"
  shows "(m, b) \<in> set (g_node g) \<or> (m = n \<and> b = a)
       \<or> (m = n \<and> (\<exists>old. (n, old) \<in> set (g_node g) \<and> b = update_attrs old a))"
  using assms by (auto simp: add_node_def split: if_splits)

lemma add_node_fresh_attrs:
  "\<not> has_node g n \<Longrightarrow> set (g_node (add_node n a g)) = insert (n, a) (set (g_node g))"
  by (simp add: add_node_def)

text \<open>The two nodes of an edge, added without attributes when they are missing.\<close>

lemma add_edge_wf:
  assumes "wf_graph g"
  shows "wf_graph (add_edge u v w g)"
    and "adj_rel (g_adj (add_edge u v w g)) = adj_rel (g_adj g) \<union> {(u, v), (v, u)}"
proof -
  let ?g1 = "if has_node g u then g else add_node u no_attrs g"
  let ?g2 = "if has_node ?g1 v then ?g1 else add_node v no_attrs ?g1"
  have wf1: "wf_graph ?g1" using assms by (simp add: wf_graph_add_node)
  then have wf2: "wf_graph ?g2" by (simp add: wf_graph_add_node)
  have hu: "has_node ?g2 u" by (auto simp: has_node_add_node)
  have hv: "has_node ?g2 v" by (auto simp: has_node_add_node)
  have rel2: "adj_rel (g_adj ?g2) = adj_rel (g_adj g)" by (simp add: add_node_adj_rel)
  have keys: "fst ` set (g_adj ?g2) = fst ` set (g_node ?g2)"
    using wf2 by (metis wf_graph_def set_map)
  have ae: "add_edge u v w g = ?g2\<lparr>g_adj := set_nbr v u w (set_nbr u v w (g_adj ?g2))\<rparr>"
    by (simp add: add_edge_def Let_def)
  have ku: "u \<in> fst ` set (g_adj ?g2)" and kv: "v \<in> fst ` set (g_adj ?g2)"
    using hu hv keys by (simp_all add: has_node_def)
  have kv': "v \<in> fst ` set (set_nbr u v w (g_adj ?g2))"
    using kv by (metis set_nbr_keys set_map)
  have rel: "adj_rel (g_adj (add_edge u v w g)) = adj_rel (g_adj ?g2) \<union> {(u, v), (v, u)}"
    unfolding ae using ku kv' by (auto simp: adj_rel_set_nbr)
  with rel2 show "adj_rel (g_adj (add_edge u v w g)) = adj_rel (g_adj g) \<union> {(u, v), (v, u)}"
    by simp
  have "sym (adj_rel (g_adj ?g2))" using wf2 by (simp add: wf_graph_def)
  then have "sym (adj_rel (g_adj (add_edge u v w g)))"
    unfolding rel by (auto simp: sym_def)
  moreover have "map fst (g_adj (add_edge u v w g)) = map fst (g_adj ?g2)"
    unfolding ae by (simp add: set_nbr_keys)
  moreover have "g_node (add_edge u v w g) = g_node ?g2"
    unfolding ae by simp
  ultimately show "wf_graph (add_edge u v w g)"
    using wf2 by (simp add: wf_graph_def)
qed

lemma add_edge_attrs:
  assumes "(m, b) \<in> set (g_node (add_edge u v w g))"
  shows "(m, b) \<in> set (g_node g) \<or> b = no_attrs"
proof -
  let ?g1 = "if has_node g u then g else add_node u no_attrs g"
  let ?g2 = "if has_node ?g1 v then ?g1 else add_node v no_attrs ?g1"
  have "g_node (add_edge u v w g) = g_node ?g2"
    by (simp add: add_edge_def Let_def)
  with assms have "(m, b) \<in> set (g_node ?g2)" by simp
  then have "(m, b) \<in> set (g_node ?g1) \<or> b = no_attrs"
    by (auto simp: add_node_fresh_attrs split: if_splits)
  then show ?thesis
    by (auto simp: add_node_fresh_attrs split: if_splits)
qed

lemma add_edge_keeps_nodes: "set (g_node g) \<subseteq> set (g_node (add_edge u v w g))"
  by (auto simp: add_edge_def Let_def add_node_fresh_attrs)

subsection \<open>What the loops keep\<close>

lemma no_attrs_type: "attr_node_type no_attrs = None"
  by (simp add: no_attrs_def)

lemma genes_from_rows_add_edge:
  assumes "genes_from_rows w fdf g"
  shows "genes_from_rows w fdf (add_edge u v x g)"
  unfolding genes_from_rows_def
proof (clarify)
  fix n a
  assume m: "(n, a) \<in> set (g_node (add_edge u v x g))" and t: "attr_node_type a = Some Gene"
  from m have "(n, a) \<in> set (g_node g) \<or> a = no_attrs" by (rule add_edge_attrs)
  with t have "(n, a) \<in> set (g_node g)" by (auto simp: no_attrs_type)
  with assms t show "\<exists>t idx r. attr_tissue a = Some t \<and> attr_pcc a = Some (PCC r)
      \<and> (idx, r) \<in> set (tissue_genes w fdf t) \<and> Gene_Symbol r = n"
    unfolding genes_from_rows_def by blast
qed

lemma add_gene_graph:
  assumes "add_gene w tissue n ir st = Inr st'"
  shows "G st' = add_edge (Gene_Symbol (snd ir)) tissue (PCC (snd ir) * 3)
           (if \<not> has_node (G st) (Gene_Symbol (snd ir))
            then add_node (Gene_Symbol (snd ir))
                   (no_attrs\<lparr>attr_node_type := Some Gene, attr_pcc := Some (PCC (snd ir)),
                             attr_tissue := Some tissue\<rparr>) (G st)
            else G st)"
  using assms by (auto simp: add_gene_def Let_def split: sum.splits option.splits)

lemma add_gene_keeps:
  assumes step: "add_gene w tissue n ir st = Inr st'"
    and wf: "wf_graph (G st)"
    and ok: "genes_from_rows w fdf (G st)"
    and sel: "ir \<in> set (tissue_genes w fdf tissue)"
  shows "wf_graph (G st')"
    and "genes_from_rows w fdf (G st')"
    and "adj_rel (g_adj (G st)) \<subseteq> adj_rel (g_adj (G st'))"
    and "(Gene_Symbol (snd ir), tissue) \<in> adj_rel (g_adj (G st'))"
proof -
  let ?gene = "Gene_Symbol (snd ir)"
  let ?a = "no_attrs\<lparr>attr_node_type := Some Gene, attr_pcc := Some (PCC (snd ir)),
                      attr_tissue := Some tissue\<rparr>"
  let ?g1 = "if \<not> has_node (G st) ?gene then add_node ?gene ?a (G st) else G st"
  have g: "G st' = add_edge ?gene tissue (PCC (snd ir) * 3) ?g1"
    using step by (rule add_gene_graph)
  have wf1: "wf_graph ?g1" using wf by (simp add: wf_graph_add_node)
  have rel1: "adj_rel (g_adj ?g1) = adj_rel (g_adj (G st))" by (simp add: add_node_adj_rel)
  have ok1: "genes_from_rows w fdf ?g1"
  proof (cases "has_node (G st) ?gene")
    case True
    with ok show ?thesis by simp
  next
    case False
    obtain idx r where ir: "ir = (idx, r)" by (cases ir)
    have "\<exists>t idx' r'. attr_tissue ?a = Some t \<and> attr_pcc ?a = Some (PCC r')
        \<and> (idx', r') \<in> set (tissue_genes w fdf t) \<and> Gene_Symbol r' = ?gene"
      using sel ir by (intro exI [of _ tissue] exI [of _ idx] exI [of _ r]) simp
    with ok False show ?thesis
      unfolding genes_from_rows_def by (auto simp: add_node_fresh_attrs)
  qed
  show "wf_graph (G st')" unfolding g using wf1 by (rule add_edge_wf(1))
  show "genes_from_rows w fdf (G st')" unfolding g using ok1 by (rule genes_from_rows_add_edge)
  have rel: "adj_rel (g_adj (G st')) = adj_rel (g_adj ?g1) \<union> {(?gene, tissue), (tissue, ?gene)}"
    unfolding g using wf1 by (rule add_edge_wf(2))
  from rel rel1 show "adj_rel (g_adj (G st)) \<subseteq> adj_rel (g_adj (G st'))" by auto
  from rel show "(?gene, tissue) \<in> adj_rel (g_adj (G st'))" by simp
qed

lemma gene_loop_keeps:
  assumes "gene_loop w tissue n rows st = Inr st'"
    and "wf_graph (G st)"
    and "genes_from_rows w fdf (G st)"
    and "set rows \<subseteq> set (tissue_genes w fdf tissue)"
  shows "wf_graph (G st') \<and> genes_from_rows w fdf (G st')
       \<and> adj_rel (g_adj (G st)) \<subseteq> adj_rel (g_adj (G st'))
       \<and> (\<forall>ir \<in> set rows. (Gene_Symbol (snd ir), tissue) \<in> adj_rel (g_adj (G st')))"
  using assms
proof (induction rows arbitrary: st)
  case Nil
  then show ?case by simp
next
  case (Cons ir rows)
  from Cons.prems(1) obtain st1 where
    s1: "add_gene w tissue n ir st = Inr st1" and s2: "gene_loop w tissue n rows st1 = Inr st'"
    by (auto split: sum.splits)
  from Cons.prems(4) have ir: "ir \<in> set (tissue_genes w fdf tissue)"
    and rest: "set rows \<subseteq> set (tissue_genes w fdf tissue)" by simp_all
  note k = add_gene_keeps [OF s1 Cons.prems(2) Cons.prems(3) ir]
  from Cons.IH [OF s2 k(1) k(2) rest]
  have ih: "wf_graph (G st')" "genes_from_rows w fdf (G st')"
    "adj_rel (g_adj (G st1)) \<subseteq> adj_rel (g_adj (G st'))"
    "\<forall>ir \<in> set rows. (Gene_Symbol (snd ir), tissue) \<in> adj_rel (g_adj (G st'))"
    by simp_all
  from k(3) ih(3) have "adj_rel (g_adj (G st)) \<subseteq> adj_rel (g_adj (G st'))" by blast
  moreover from k(4) ih(3) have "(Gene_Symbol (snd ir), tissue) \<in> adj_rel (g_adj (G st'))"
    by blast
  ultimately show ?case using ih by simp
qed

lemma tissue_loop_keeps:
  assumes "tissue_loop w fdf ts st = Inr st'"
    and "wf_graph (G st)"
    and "genes_from_rows w fdf (G st)"
  shows "wf_graph (G st') \<and> genes_from_rows w fdf (G st')
       \<and> adj_rel (g_adj (G st)) \<subseteq> adj_rel (g_adj (G st'))
       \<and> (\<forall>t \<in> set ts. \<forall>ir \<in> set (tissue_genes w fdf t).
             (Gene_Symbol (snd ir), t) \<in> adj_rel (g_adj (G st')))"
  using assms
proof (induction ts arbitrary: st)
  case Nil
  then show ?case by simp
next
  case (Cons t ts)
  let ?tg = "sorted_tissue_genes w fdf t"
  let ?st1 = "if max_genes_per_tissue < length ?tg
              then st\<lparr>out := out st @ [Limiting t (length ?tg) max_genes_per_tissue]\<rparr> else st"
  have g1: "G ?st1 = G st" by simp
  from Cons.prems(1) obtain st2 where
    s1: "gene_loop w t (length (tissue_genes w fdf t)) (tissue_genes w fdf t) ?st1 = Inr st2"
    and s2: "tissue_loop w fdf ts st2 = Inr st'"
    by (auto simp: Let_def split: sum.splits)
  from Cons.prems(2,3) g1 have wf1: "wf_graph (G ?st1)" and ok1: "genes_from_rows w fdf (G ?st1)"
    by simp_all
  from gene_loop_keeps [OF s1 wf1 ok1]
  have k: "wf_graph (G st2)" "genes_from_rows w fdf (G st2)"
    "adj_rel (g_adj (G st)) \<subseteq> adj_rel (g_adj (G st2))"
    "\<forall>ir \<in> set (tissue_genes w fdf t). (Gene_Symbol (snd ir), t) \<in> adj_rel (g_adj (G st2))"
    using g1 by simp_all
  from Cons.IH [OF s2 k(1) k(2)]
  have ih: "wf_graph (G st')" "genes_from_rows w fdf (G st')"
    "adj_rel (g_adj (G st2)) \<subseteq> adj_rel (g_adj (G st'))"
    "\<forall>t \<in> set ts. \<forall>ir \<in> set (tissue_genes w fdf t).
        (Gene_Symbol (snd ir), t) \<in> adj_rel (g_adj (G st'))"
    by simp_all
  from k(3) ih(3) have "adj_rel (g_adj (G st)) \<subseteq> adj_rel (g_adj (G st'))" by blast
  moreover from k(4) ih(3)
  have "\<forall>ir \<in> set (tissue_genes w fdf t). (Gene_Symbol (snd ir), t) \<in> adj_rel (g_adj (G st'))"
    by blast
  ultimately show ?case using ih by simp
qed

lemma place_tissues_keeps:
  assumes "wf_graph (G st)"
    and "\<forall>(n, a) \<in> set (g_node (G st)). attr_node_type a \<noteq> Some Gene"
  shows "wf_graph (G (place_tissues c counts i ts st))
       \<and> (\<forall>(n, a) \<in> set (g_node (G (place_tissues c counts i ts st))).
             attr_node_type a \<noteq> Some Gene)"
  using assms
proof (induction ts arbitrary: i st)
  case Nil
  then show ?case by simp
next
  case (Cons t ts)
  let ?a = "no_attrs\<lparr>attr_node_type := Some Tissue, attr_gene_count := Some (counts t)\<rparr>"
  let ?g1 = "add_node t ?a (G st)"
  let ?g2 = "add_edge c t 5 ?g1"
  have wf2: "wf_graph ?g2"
    using Cons.prems(1) by (intro add_edge_wf(1) wf_graph_add_node)
  have ng1: "attr_node_type b \<noteq> Some Gene" if "(m, b) \<in> set (g_node ?g1)" for m b
    using add_node_attrs [OF that] Cons.prems(2)
    by (auto simp: update_attrs_def or_else_def no_attrs_def)
  have ng2: "attr_node_type b \<noteq> Some Gene" if "(m, b) \<in> set (g_node ?g2)" for m b
    using add_edge_attrs [OF that] ng1 by (auto simp: no_attrs_type)
  have "wf_graph (G (place_tissues c counts (Suc i) ts
      (st\<lparr>fixed_positions := (fixed_positions st)
             (t \<mapsto> (radius * cos (real i * golden_angle), radius * sin (real i * golden_angle))),
          G := ?g2\<rparr>)))
    \<and> (\<forall>(n, a) \<in> set (g_node (G (place_tissues c counts (Suc i) ts
      (st\<lparr>fixed_positions := (fixed_positions st)
             (t \<mapsto> (radius * cos (real i * golden_angle), radius * sin (real i * golden_angle))),
          G := ?g2\<rparr>)))). attr_node_type a \<noteq> Some Gene)"
    by (rule Cons.IH) (use wf2 ng2 in auto)
  then show ?case by (simp add: Let_def)
qed

lemma tissue_layout_keeps:
  "wf_graph (G (tissue_layout c fdf lg)) \<and> genes_from_rows w fdf (G (tissue_layout c fdf lg))"
proof -
  let ?g0 = "add_node c (no_attrs\<lparr>attr_node_type := Some Central\<rparr>) empty_graph"
  let ?st0 = "\<lparr>G = ?g0, fixed_positions = [c \<mapsto> (0, 0)], genes_added = 0, draws = 0,
    out = lg @ [Found (length (tissue_types fdf)) (length fdf)]\<rparr>"
  have wf0: "wf_graph (G ?st0)" by (simp add: wf_graph_add_node wf_graph_empty)
  have ng0: "\<forall>(n, a) \<in> set (g_node (G ?st0)). attr_node_type a \<noteq> Some Gene"
    by (simp add: add_node_def has_node_def empty_graph_def no_attrs_def)
  from place_tissues_keeps [OF wf0 ng0, of c "tissue_gene_counts fdf" 0 "tissue_types fdf"]
  have "wf_graph (G (tissue_layout c fdf lg))"
    and "\<forall>(n, a) \<in> set (g_node (G (tissue_layout c fdf lg))). attr_node_type a \<noteq> Some Gene"
    by (simp_all add: tissue_layout_def Let_def)
  then show ?thesis by (auto simp: genes_from_rows_def)
qed

lemma gene_layout_keeps:
  assumes "gene_layout w c fdf lg = Inr st"
  shows "wf_graph (G st) \<and> genes_from_rows w fdf (G st)
       \<and> (\<forall>t \<in> set (tissue_types fdf). \<forall>ir \<in> set (tissue_genes w fdf t).
             (Gene_Symbol (snd ir), t) \<in> adj_rel (g_adj (G st)))"
proof -
  from assms have "tissue_loop w fdf (tissue_types fdf) (tissue_layout c fdf lg) = Inr st"
    by (simp add: gene_layout_def)
  from tissue_loop_keeps [OF this] tissue_layout_keeps [of c fdf lg w]
  show ?thesis by simp
qed

subsection \<open>From the graph to the node and link arrays\<close>

lemma node_entries_skip:
  "n = c \<or> (attr_node_type a \<noteq> Some Tissue \<and> attr_node_type a \<noteq> Some Gene) \<Longrightarrow>
   node_entries c colors pos ((n, a) # rest) = node_entries c colors pos rest"
  by auto

lemma node_entries_keep:
  assumes "n \<noteq> c" and "attr_node_type a = Some Tissue \<or> attr_node_type a = Some Gene"
    and "node_entries c colors pos ((n, a) # rest) = Inr ns"
  shows "\<exists>y ns'. ns = y # ns' \<and> node_entries c colors pos rest = Inr ns' \<and> node_id y = n
     \<and> ((attr_node_type a = Some Tissue \<and> node_kind y = Tissue)
        \<or> (attr_node_type a = Some Gene
            \<and> node_data y = GeneData (case attr_pcc a of None \<Rightarrow> 0 | Some p \<Rightarrow> p)
                               (attr_tissue a)))"
proof (cases "attr_node_type a = Some Tissue")
  case True
  with assms(1,3) show ?thesis
    by (auto simp: node_kind_def simp del: str_nat.simps split: option.splits sum.splits)
next
  case False
  with assms(2) have "attr_node_type a = Some Gene" by simp
  with assms(1,3) show ?thesis
    by (auto simp: node_kind_def simp del: str_nat.simps split: option.splits sum.splits)
qed

lemma node_entries_ids:
  "node_entries c colors pos nodes = Inr ns \<Longrightarrow>
   map node_id ns = map fst (filter (\<lambda>(n, a). n \<noteq> c
       \<and> (attr_node_type a = Some Tissue \<or> attr_node_type a = Some Gene)) nodes)"
proof (induction nodes arbitrary: ns)
  case Nil
  then show ?case by simp
next
  case (Cons e nodes)
  obtain n a where e: "e = (n, a)" by (cases e)
  show ?case
  proof (cases "n \<noteq> c \<and> (attr_node_type a = Some Tissue \<or> attr_node_type a = Some Gene)")
    case False
    then have "node_entries c colors pos ((n, a) # nodes) = node_entries c colors pos nodes"
      by (intro node_entries_skip) auto
    with Cons.prems have "node_entries c colors pos nodes = Inr ns" by (simp only: e)
    from Cons.IH [OF this] False show ?thesis by (simp add: e)
  next
    case True
    from Cons.prems have "node_entries c colors pos ((n, a) # nodes) = Inr ns" by (simp only: e)
    from node_entries_keep [OF _ _ this] True obtain y ns' where
      "ns = y # ns'" "node_entries c colors pos nodes = Inr ns'" "node_id y = n"
      by blast
    with Cons.IH [of ns'] True show ?thesis by (simp add: e)
  qed
qed

lemma node_entries_origin:
  "node_entries c colors pos nodes = Inr ns \<Longrightarrow> x \<in> set ns \<Longrightarrow>
   \<exists>a. (node_id x, a) \<in> set nodes \<and> node_id x \<noteq> c
     \<and> ((attr_node_type a = Some Tissue \<and> node_kind x = Tissue)
        \<or> (attr_node_type a = Some Gene
            \<and> node_data x = GeneData (case attr_pcc a of None \<Rightarrow> 0 | Some p \<Rightarrow> p)
                               (attr_tissue a)))"
proof (induction nodes arbitrary: ns)
  case Nil
  then show ?case by simp
next
  case (Cons e nodes)
  obtain n a where e: "e = (n, a)" by (cases e)
  from Cons.prems(1) have whole: "node_entries c colors pos ((n, a) # nodes) = Inr ns"
    by (simp only: e)
  show ?case
  proof (cases "n \<noteq> c \<and> (attr_node_type a = Some Tissue \<or> attr_node_type a = Some Gene)")
    case False
    then have "node_entries c colors pos ((n, a) # nodes) = node_entries c colors pos nodes"
      by (intro node_entries_skip) auto
    with whole have "node_entries c colors pos nodes = Inr ns" by simp
    from Cons.IH [OF this Cons.prems(2)] obtain b where
      "(node_id x, b) \<in> set nodes" "node_id x \<noteq> c"
      "(attr_node_type b = Some Tissue \<and> node_kind x = Tissue)
        \<or> (attr_node_type b = Some Gene
            \<and> node_data x = GeneData (case attr_pcc b of None \<Rightarrow> 0 | Some p \<Rightarrow> p)
                               (attr_tissue b))"
      by blast
    then show ?thesis by (intro exI [of _ b]) simp
  next
    case True
    from node_entries_keep [OF _ _ whole] True obtain y ns' where
      ns: "ns = y # ns'" and rest: "node_entries c colors pos nodes = Inr ns'"
      and y: "node_id y = n"
        "(attr_node_type a = Some Tissue \<and> node_kind y = Tissue)
         \<or> (attr_node_type a = Some Gene
            \<and> node_data y = GeneData (case attr_pcc a of None \<Rightarrow> 0 | Some p \<Rightarrow> p)
                               (attr_tissue a))"
      by blast
    show ?thesis
    proof (cases "x = y")
      case True
      with y \<open>n \<noteq> c \<and> _\<close> show ?thesis
        by (intro exI [of _ a]) (simp add: e)
    next
      case False
      with Cons.prems(2) ns have "x \<in> set ns'" by simp
      from Cons.IH [OF rest this] obtain b where
        "(node_id x, b) \<in> set nodes" "node_id x \<noteq> c"
        "(attr_node_type b = Some Tissue \<and> node_kind x = Tissue)
          \<or> (attr_node_type b = Some Gene
              \<and> node_data x = GeneData (case attr_pcc b of None \<Rightarrow> 0 | Some p \<Rightarrow> p)
                                 (attr_tissue b))"
        by blast
      then show ?thesis by (intro exI [of _ b]) simp
    qed
  qed
qed

lemma edges_from_mem:
  "a = pre @ (u, nbrs) # post \<Longrightarrow> (v, w) \<in> set nbrs \<Longrightarrow> v \<notin> set seen
   \<Longrightarrow> v \<notin> fst ` set pre \<Longrightarrow> (u, v, w) \<in> set (edges_from seen a)"
proof (induction pre arbitrary: a seen)
  case Nil
  then show ?case by force
next
  case (Cons e pre)
  obtain k kn where e: "e = (k, kn)" by (cases e)
  from Cons.prems(4) have vk: "v \<noteq> k" and vp: "v \<notin> fst ` set pre" by (auto simp: e)
  from Cons.prems(3) vk have "v \<notin> set (k # seen)" by simp
  from Cons.IH [OF refl Cons.prems(2) this vp]
  show ?case unfolding Cons.prems(1) e by simp
qed

lemma edges_linked:
  assumes wf: "wf_graph g" and uv: "(u, v) \<in> adj_rel (g_adj g)"
  shows "linked (links_data_of g) u v"
proof -
  from wf have dist: "distinct (map fst (g_adj g))" and sy: "sym (adj_rel (g_adj g))"
    by (simp_all add: wf_graph_def)
  from uv obtain nu w where nu: "(u, nu) \<in> set (g_adj g)" "(v, w) \<in> set nu"
    by (auto simp: adj_rel_def)
  from sy uv have "(v, u) \<in> adj_rel (g_adj g)" by (auto dest: symD)
  then obtain nv w' where nv: "(v, nv) \<in> set (g_adj g)" "(u, w') \<in> set nv"
    by (auto simp: adj_rel_def)
  from nu(1) obtain pre post where sp: "g_adj g = pre @ (u, nu) # post"
    by (auto dest: split_list)
  have "(u, v, w) \<in> set (edges g) \<or> (v, u, w') \<in> set (edges g)"
  proof (cases "v \<in> fst ` set pre")
    case False
    have "(u, v, w) \<in> set (edges_from [] (g_adj g))"
      by (rule edges_from_mem [OF sp nu(2) _ False]) simp
    then show ?thesis by (simp add: edges_def)
  next
    case True
    then obtain nv' where inpre: "(v, nv') \<in> set pre" by auto
    then have "(v, nv') \<in> set (g_adj g)" unfolding sp by simp
    with dist nv(1) have "nv = nv'" by (rule eq_key_imp_eq_value)
    then have same: "nv' = nv" by simp
    from inpre obtain p1 p2 where p: "pre = p1 @ (v, nv') # p2" by (auto dest: split_list)
    have full: "g_adj g = p1 @ (v, nv) # (p2 @ (u, nu) # post)"
      unfolding sp p same by simp
    from dist have "distinct (map fst (p1 @ (v, nv) # (p2 @ (u, nu) # post)))"
      unfolding full .
    then have "u \<notin> fst ` set p1" by auto
    have "(v, u, w') \<in> set (edges_from [] (g_adj g))"
      by (rule edges_from_mem [OF full nv(2) _ \<open>u \<notin> fst ` set p1\<close>]) simp
    then show ?thesis by (simp add: edges_def)
  qed
  then show ?thesis
    unfolding linked_def links_data_of_def by force
qed

lemma build_network_parts:
  assumes "build_network w c df lg = Inr net"
  shows "\<exists>st cpos ns. gene_layout w c (filtered_df df) lg = Inr st
     \<and> fixed_positions st c = Some cpos
     \<and> node_entries c (tissue_colors (tissue_types (filtered_df df))) (fixed_positions st)
         (g_node (G st)) = Inr ns
     \<and> nodes_data net = central_entry c cpos # ns
     \<and> links_data net = links_data_of (G st)
     \<and> net_G net = G st"
proof -
  let ?fdf = "filtered_df df"
  from assms obtain st where st: "gene_layout w c ?fdf lg = Inr st"
    by (cases "gene_layout w c ?fdf lg") (simp_all add: build_network_def Let_def)
  with assms obtain cpos where cpos: "fixed_positions st c = Some cpos"
    by (cases "fixed_positions st c") (simp_all add: build_network_def Let_def)
  let ?ne = "node_entries c (tissue_colors (tissue_types ?fdf)) (fixed_positions st) (g_node (G st))"
  from assms st cpos obtain ns where ns: "?ne = Inr ns"
    by (cases ?ne) (simp_all add: build_network_def Let_def)
  from assms st cpos ns
  have "net = \<lparr>net_G = G st, net_positions = fixed_positions st,
                nodes_data = central_entry c cpos # ns,
                links_data = links_data_of (G st),
                net_out = out st @ [Added (genes_added st)]\<rparr>"
    by (simp add: build_network_def Let_def)
  with st cpos ns show ?thesis
    by (intro exI [of _ st] exI [of _ cpos] exI [of _ ns]) simp
qed

lemma written_from_build:
  assumes "written (create_web_network w input_file c output_file) = Some (p, ns, ls)"
  shows "\<exists>df net. read_csv w input_file = Inr df
     \<and> build_network w c df [Loading input_file] = Inr net
     \<and> ns = nodes_data net \<and> ls = links_data net"
proof -
  from assms obtain df where df: "read_csv w input_file = Inr df"
    by (cases "read_csv w input_file")
       (simp_all add: create_web_network_def try_body_def split: prod.splits)
  with assms obtain net where net: "build_network w c df [Loading input_file] = Inr net"
    by (cases "build_network w c df [Loading input_file]")
       (simp_all add: create_web_network_def try_body_def split: prod.splits)
  from assms df net have "ns = nodes_data net \<and> ls = links_data net"
    by (simp add: create_web_network_def try_body_def Let_def
        split: option.splits if_splits prod.splits)
  with df net show ?thesis by blast
qed

subsection \<open>Gene nodes of the generated output\<close>

lemma filtered_df_pcc: "(idx, r) \<in> set (filtered_df df) \<Longrightarrow> 0.8 \<le> PCC r"
  by (auto simp: filtered_df_def)

lemma tissue_genes_le_cap: "length (tissue_genes w fdf t) \<le> 150"
  by (simp add: tissue_genes_take)

lemma node_ids_distinct:
  assumes "build_network w c df lg = Inr net"
  shows "distinct (map node_id (nodes_data net))"
proof -
  from build_network_parts [OF assms] obtain st cpos ns where
    st: "gene_layout w c (filtered_df df) lg = Inr st"
    and ne: "node_entries c (tissue_colors (tissue_types (filtered_df df))) (fixed_positions st)
         (g_node (G st)) = Inr ns"
    and nd: "nodes_data net = central_entry c cpos # ns"
    by blast
  from gene_layout_keeps [OF st] have "distinct (map fst (g_node (G st)))"
    by (simp add: wf_graph_def)
  then have "distinct (map fst (filter (\<lambda>(n, a). n \<noteq> c
       \<and> (attr_node_type a = Some Tissue \<or> attr_node_type a = Some Gene)) (g_node (G st))))"
    by (rule distinct_map_filter)
  moreover have "c \<notin> set (map fst (filter (\<lambda>(n, a). n \<noteq> c
       \<and> (attr_node_type a = Some Tissue \<or> attr_node_type a = Some Gene)) (g_node (G st))))"
    by auto
  ultimately show ?thesis
    unfolding nd using node_entries_ids [OF ne] by (simp add: central_entry_def)
qed

lemma gene_node_origin:
  assumes build: "build_network w c df lg = Inr net"
    and x: "x \<in> set (gene_nodes (nodes_data net))"
  shows "\<exists>t idx r. node_data x = GeneData (PCC r) (Some t)
     \<and> (idx, r) \<in> set (tissue_genes w (filtered_df df) t) \<and> Gene_Symbol r = node_id x"
proof -
  from build_network_parts [OF build] obtain st cpos ns where
    st: "gene_layout w c (filtered_df df) lg = Inr st"
    and ne: "node_entries c (tissue_colors (tissue_types (filtered_df df))) (fixed_positions st)
         (g_node (G st)) = Inr ns"
    and nd: "nodes_data net = central_entry c cpos # ns"
    by blast
  from x have kind: "node_kind x = Gene" and mem: "x \<in> set (nodes_data net)"
    by (simp_all add: gene_nodes_def)
  have "node_kind (central_entry c cpos) = Central"
    by (simp add: central_entry_def node_kind_def)
  with kind mem nd have "x \<in> set ns" by auto
  from node_entries_origin [OF ne this] kind obtain a where
    a: "(node_id x, a) \<in> set (g_node (G st))" "attr_node_type a = Some Gene"
      "node_data x = GeneData (case attr_pcc a of None \<Rightarrow> 0 | Some p \<Rightarrow> p) (attr_tissue a)"
    by auto
  from gene_layout_keeps [OF st] have "genes_from_rows w (filtered_df df) (G st)" by simp
  with a(1,2) obtain t idx r where
    "attr_tissue a = Some t" "attr_pcc a = Some (PCC r)"
    "(idx, r) \<in> set (tissue_genes w (filtered_df df) t)" "Gene_Symbol r = node_id x"
    unfolding genes_from_rows_def by blast
  with a(3) show ?thesis by auto
qed

lemma gene_node_linked:
  assumes build: "build_network w c df lg = Inr net"
    and t: "t \<in> set (tissue_types (filtered_df df))"
    and ir: "ir \<in> set (tissue_genes w (filtered_df df) t)"
  shows "linked (links_data net) (Gene_Symbol (snd ir)) t"
proof -
  from build_network_parts [OF build] obtain st where
    st: "gene_layout w c (filtered_df df) lg = Inr st"
    and ld: "links_data net = links_data_of (G st)"
    by blast
  from gene_layout_keeps [OF st] t ir
  have "wf_graph (G st)" and "(Gene_Symbol (snd ir), t) \<in> adj_rel (g_adj (G st))"
    by simp_all
  then show ?thesis unfolding ld by (rule edges_linked)
qed

lemma selected_tissue_is_type:
  assumes "sorts_descending (sort_values w)" and "(idx, r) \<in> set (tissue_genes w fdf t)"
  shows "t \<in> set (tissue_types fdf) \<and> (idx, r) \<in> set fdf"
proof -
  from tissue_genes_subset [OF assms(1), of fdf t] assms(2)
  have m: "(idx, r) \<in> set fdf" and "Tumor r = t" by auto
  then have "t \<in> set (map (\<lambda>(idx, r). Tumor r) fdf)" by force
  with m show ?thesis by (simp add: tissue_types_def set_unique)
qed

lemma genes_of_tissue_count:
  assumes build: "build_network w c df lg = Inr net"
  shows "length (genes_of_tissue t (nodes_data net)) \<le> 150"
proof -
  let ?xs = "genes_of_tissue t (nodes_data net)"
  let ?sel = "tissue_genes w (filtered_df df) t"
  have d: "distinct (map node_id ?xs)"
    unfolding genes_of_tissue_def
    using node_ids_distinct [OF build] by (rule distinct_map_filter)
  have sub: "set (map node_id ?xs) \<subseteq> (\<lambda>ir. Gene_Symbol (snd ir)) ` set ?sel"
  proof
    fix i assume "i \<in> set (map node_id ?xs)"
    then obtain x where x: "x \<in> set ?xs" "i = node_id x" by auto
    then have g: "x \<in> set (gene_nodes (nodes_data net))"
      and tx: "tissue_of (node_data x) = Some t"
      by (simp_all add: genes_of_tissue_def gene_nodes_def)
    from gene_node_origin [OF build g] tx obtain idx r where
      "(idx, r) \<in> set ?sel" "Gene_Symbol r = node_id x"
      by auto
    with x(2) show "i \<in> (\<lambda>ir. Gene_Symbol (snd ir)) ` set ?sel" by force
  qed
  have "length ?xs = card (set (map node_id ?xs))"
    using d by (metis distinct_card length_map)
  also have "\<dots> \<le> card ((\<lambda>ir. Gene_Symbol (snd ir)) ` set ?sel)"
    using sub by (intro card_mono) simp_all
  also have "\<dots> \<le> card (set ?sel)" by (intro card_image_le) simp
  also have "\<dots> \<le> length ?sel" by (rule card_length)
  also have "\<dots> \<le> 150" by (rule tissue_genes_le_cap)
  finally show ?thesis .
qed

lemma three_rows_built:
  assumes "sorts_descending (sort_values w)"
  shows "\<exists>net. build_network w ''GCH1'' three_rows lg = Inr net
     \<and> map node_id (gene_nodes (nodes_data net)) = [''Gene1'', ''Gene2'']"
  by (simp add: layout_eval three_rows_types three_rows_counts
        three_rows_sorted [OF assms] three_rows_selection [OF assms])

lemma quiet_world_written:
  assumes "build_network (quiet_world df) c df [Loading ''data/tumor.csv''] = Inr net"
  shows "written (create_web_network (quiet_world df) ''data/tumor.csv'' c output_file)
     = Some (output_file, nodes_data net, links_data net)"
proof -
  have "read_csv (quiet_world df) ''data/tumor.csv'' = Inr df"
    "path_exists (quiet_world df) p" "write_text (quiet_world df) p = None"
    "webbrowser_open (quiet_world df) p = None" for p
    by (simp_all add: quiet_world_def)
  with assms show ?thesis
    by (simp add: create_web_network_def try_body_def Let_def)
qed

text \<open>
  Claim C1. Whenever a document is written, whatever the table, the paths and the random
  draws, and for every sort that meets what \<^verbatim>\<open>sort_values\<close> promises: every gene node of
  the document has a correlation of at least 0.8; for every tissue label at most 150 gene
  nodes carry it; every gene node of a tissue has the symbol and the correlation of a row
  selected for that tissue; and the selection of a tissue has at most 150 rows, none of
  the filtered rows of the tissue left out having a higher correlation than a row kept.
\<close>

theorem gene_nodes_filtered_and_capped:
  assumes "sorts_descending (sort_values w)"
    and "written (create_web_network w input_file central_node output_file) = Some (p, ns, ls)"
  shows "\<exists>df. read_csv w input_file = Inr df
     \<and> (\<forall>x \<in> set (gene_nodes ns). 0.8 \<le> pcc_of (node_data x))
     \<and> (\<forall>t. length (genes_of_tissue t ns) \<le> 150)
     \<and> (\<forall>t. \<forall>x \<in> set (genes_of_tissue t ns). \<exists>idx r.
            (idx, r) \<in> set (tissue_genes w (filtered_df df) t)
            \<and> Gene_Symbol r = node_id x \<and> PCC r = pcc_of (node_data x))
     \<and> (\<forall>t. length (tissue_genes w (filtered_df df) t) \<le> 150
            \<and> (\<forall>a \<in> set (tissue_genes w (filtered_df df) t).
                \<forall>b \<in> set (filter (\<lambda>(idx, r). Tumor r = t) (filtered_df df)).
                  b \<notin> set (tissue_genes w (filtered_df df) t) \<longrightarrow> PCC (snd b) \<le> PCC (snd a)))"
proof -
  from written_from_build [OF assms(2)] obtain df net where
    df: "read_csv w input_file = Inr df"
    and build: "build_network w central_node df [Loading input_file] = Inr net"
    and ns: "ns = nodes_data net"
    by blast
  let ?fdf = "filtered_df df"
  have a: "0.8 \<le> pcc_of (node_data x)" if "x \<in> set (gene_nodes ns)" for x
  proof -
    from gene_node_origin [OF build] that ns obtain t idx r where
      o: "node_data x = GeneData (PCC r) (Some t)" "(idx, r) \<in> set (tissue_genes w ?fdf t)"
      by blast
    from selected_tissue_is_type [OF assms(1) o(2)] have "(idx, r) \<in> set ?fdf" by simp
    then have "0.8 \<le> PCC r" by (rule filtered_df_pcc)
    with o(1) show ?thesis by simp
  qed
  have b: "length (genes_of_tissue t ns) \<le> 150" for t
    unfolding ns using build by (rule genes_of_tissue_count)
  have c: "\<exists>idx r. (idx, r) \<in> set (tissue_genes w ?fdf t)
      \<and> Gene_Symbol r = node_id x \<and> PCC r = pcc_of (node_data x)"
    if "x \<in> set (genes_of_tissue t ns)" for t x
  proof -
    from that have g: "x \<in> set (gene_nodes (nodes_data net))"
      and tx: "tissue_of (node_data x) = Some t"
      by (simp_all add: genes_of_tissue_def gene_nodes_def ns)
    from gene_node_origin [OF build g] tx obtain idx r where
      "node_data x = GeneData (PCC r) (Some t)" "(idx, r) \<in> set (tissue_genes w ?fdf t)"
      "Gene_Symbol r = node_id x"
      by auto
    then show ?thesis by (intro exI [of _ idx] exI [of _ r]) simp
  qed
  have d: "PCC (snd y) \<le> PCC (snd x)"
    if "x \<in> set (tissue_genes w ?fdf t)" "y \<in> set (filter (\<lambda>(idx, r). Tumor r = t) ?fdf)"
      "y \<notin> set (tissue_genes w ?fdf t)" for t x y
    using assms(1) that by (rule tissue_genes_top)
  from df a b c d tissue_genes_le_cap show ?thesis
    by (intro exI [of _ df]) blast
qed

theorem gene_nodes_filtered_and_capped_witness:
  "sorts_descending (sort_values (quiet_world three_rows))
   \<and> written (create_web_network (quiet_world three_rows) ''data/tumor.csv'' ''GCH1''
        ''Network Tumor/index.html'')
     = Some (''Network Tumor/index.html'',
         net_nodes (build_network (quiet_world three_rows) ''GCH1'' three_rows
            [Loading ''data/tumor.csv'']),
         net_links (build_network (quiet_world three_rows) ''GCH1'' three_rows
            [Loading ''data/tumor.csv'']))
   \<and> length (genes_of_tissue ''TissueA''
        (net_nodes (build_network (quiet_world three_rows) ''GCH1'' three_rows
            [Loading ''data/tumor.csv'']))) \<le> 150"
proof -
  have s: "sorts_descending (sort_values (quiet_world three_rows))"
    by (rule quiet_world_sorts)
  from three_rows_built [OF s] obtain net where
    build: "build_network (quiet_world three_rows) ''GCH1'' three_rows
              [Loading ''data/tumor.csv''] = Inr net"
    by blast
  have wr: "written (create_web_network (quiet_world three_rows) ''data/tumor.csv'' ''GCH1''
        ''Network Tumor/index.html'')
     = Some (''Network Tumor/index.html'', nodes_data net, links_data net)"
    using build by (rule quiet_world_written)
  from gene_nodes_filtered_and_capped [OF s wr]
  have "length (genes_of_tissue ''TissueA'' (nodes_data net)) \<le> 150" by blast
  with s wr build show ?thesis by (simp add: net_nodes_def net_links_def)
qed

subsection \<open>A gene node and its tissues\<close>

lemma two_tissues_filtered:
  "filtered_df two_tissues =
     [(0, \<lparr>Tumor = ''A'', Gene_Symbol = ''g'', PCC = 0.9\<rparr>),
      (1, \<lparr>Tumor = ''B'', Gene_Symbol = ''g'', PCC = 0.85\<rparr>)]"
  by (simp add: filtered_df_def two_tissues_def)

lemma two_tissues_counts:
  "tissue_gene_counts (filtered_df two_tissues) ''A'' = 1"
  "tissue_gene_counts (filtered_df two_tissues) ''B'' = 1"
  "length (filtered_df two_tissues) = 2"
  by (simp_all add: tissue_gene_counts_def two_tissues_filtered)

lemma two_tissues_sorted:
  "sorted_tissue_genes (quiet_world df) (filtered_df two_tissues) ''A'' =
     [(0, \<lparr>Tumor = ''A'', Gene_Symbol = ''g'', PCC = 0.9\<rparr>)]"
  "sorted_tissue_genes (quiet_world df) (filtered_df two_tissues) ''B'' =
     [(1, \<lparr>Tumor = ''B'', Gene_Symbol = ''g'', PCC = 0.85\<rparr>)]"
  by (simp_all add: sorted_tissue_genes_def two_tissues_filtered quiet_world_def
        sort_desc_stable_def)

lemma two_tissues_selection:
  "tissue_genes (quiet_world df) (filtered_df two_tissues) ''A'' =
     [(0, \<lparr>Tumor = ''A'', Gene_Symbol = ''g'', PCC = 0.9\<rparr>)]"
  "tissue_genes (quiet_world df) (filtered_df two_tissues) ''B'' =
     [(1, \<lparr>Tumor = ''B'', Gene_Symbol = ''g'', PCC = 0.85\<rparr>)]"
  by (simp_all add: tissue_genes_def max_genes_per_tissue_def two_tissues_sorted)

text \<open>
  Claim C8, as the code has it. Node identifiers are unique, and every gene node carries
  one \<^verbatim>\<open>tissue\<close> attribute, a tissue label for which a row with the symbol of the node was
  selected, together with the correlation of that row. The node is linked to every
  tissue for which a row with its symbol was selected: \<^verbatim>\<open>add_edge\<close> stands outside the
  test \<^verbatim>\<open>gene not in G\<close>. So a symbol selected under several tissue labels gives one
  node with one \<^verbatim>\<open>tissue\<close> attribute and an edge to each of these tissues.
\<close>

theorem gene_node_tissue_links:
  assumes "sorts_descending (sort_values w)"
    and "build_network w central_node df lg = Inr net"
  shows "distinct (map node_id (nodes_data net))
     \<and> (\<forall>x \<in> set (gene_nodes (nodes_data net)). \<exists>t idx r.
           node_data x = GeneData (PCC r) (Some t)
           \<and> t \<in> set (tissue_types (filtered_df df))
           \<and> (idx, r) \<in> set (tissue_genes w (filtered_df df) t)
           \<and> Gene_Symbol r = node_id x)
     \<and> (\<forall>x \<in> set (gene_nodes (nodes_data net)).
         \<forall>t \<in> set (tissue_types (filtered_df df)).
         \<forall>ir \<in> set (tissue_genes w (filtered_df df) t).
           Gene_Symbol (snd ir) = node_id x \<longrightarrow> linked (links_data net) (node_id x) t)"
proof -
  have a: "distinct (map node_id (nodes_data net))"
    using assms(2) by (rule node_ids_distinct)
  have b: "\<exists>t idx r. node_data x = GeneData (PCC r) (Some t)
           \<and> t \<in> set (tissue_types (filtered_df df))
           \<and> (idx, r) \<in> set (tissue_genes w (filtered_df df) t)
           \<and> Gene_Symbol r = node_id x"
    if "x \<in> set (gene_nodes (nodes_data net))" for x
  proof -
    from gene_node_origin [OF assms(2) that] obtain t idx r where
      o: "node_data x = GeneData (PCC r) (Some t)"
        "(idx, r) \<in> set (tissue_genes w (filtered_df df) t)" "Gene_Symbol r = node_id x"
      by blast
    from selected_tissue_is_type [OF assms(1) o(2)]
    have "t \<in> set (tissue_types (filtered_df df))" by simp
    with o show ?thesis by (intro exI [of _ t] exI [of _ idx] exI [of _ r]) simp
  qed
  have c: "linked (links_data net) (node_id x) t"
    if "t \<in> set (tissue_types (filtered_df df))"
      "ir \<in> set (tissue_genes w (filtered_df df) t)" "Gene_Symbol (snd ir) = node_id x"
    for x t ir
    using gene_node_linked [OF assms(2) that(1,2)] that(3) by simp
  from a b c show ?thesis by blast
qed

theorem gene_node_tissue_links_witness:
  "sorts_descending (sort_values (quiet_world three_rows))
   \<and> ''Gene1'' \<in> set (map node_id (gene_nodes
        (net_nodes (build_network (quiet_world three_rows) ''GCH1'' three_rows []))))
   \<and> linked (net_links (build_network (quiet_world three_rows) ''GCH1'' three_rows []))
        ''Gene1'' ''TissueA''"
proof -
  have s: "sorts_descending (sort_values (quiet_world three_rows))"
    by (rule quiet_world_sorts)
  from three_rows_built [OF s, of "[]"] obtain net where n:
    "build_network (quiet_world three_rows) ''GCH1'' three_rows [] = Inr net
     \<and> map node_id (gene_nodes (nodes_data net)) = [''Gene1'', ''Gene2'']" ..
  then have build: "build_network (quiet_world three_rows) ''GCH1'' three_rows [] = Inr net"
    and ids: "map node_id (gene_nodes (nodes_data net)) = [''Gene1'', ''Gene2'']"
    by (rule conjunct1, rule conjunct2)
  have m: "''Gene1'' \<in> set (map node_id (gene_nodes (nodes_data net)))"
    unfolding ids by simp
  then have "''Gene1'' \<in> node_id ` set (gene_nodes (nodes_data net))"
    by (simp only: set_map)
  then obtain x where x: "''Gene1'' = node_id x" "x \<in> set (gene_nodes (nodes_data net))"
    by (rule imageE)
  have t: "''TissueA'' \<in> set (tissue_types (filtered_df three_rows))"
    by (simp add: three_rows_types)
  have ir: "(0, \<lparr>Tumor = ''TissueA'', Gene_Symbol = ''Gene1'', PCC = 0.95\<rparr>)
      \<in> set (tissue_genes (quiet_world three_rows) (filtered_df three_rows) ''TissueA'')"
    by (simp add: three_rows_selection [OF s])
  have sym: "Gene_Symbol (snd (0::nat, \<lparr>Tumor = ''TissueA'', Gene_Symbol = ''Gene1'',
      PCC = 0.95\<rparr>)) = node_id x"
    using x(1) by simp
  note links = gene_node_tissue_links [OF s build, THEN conjunct2, THEN conjunct2]
  from links [rule_format, OF x(2) t ir sym]
  have "linked (links_data net) (node_id x) ''TissueA''" .
  then have l: "linked (links_data net) ''Gene1'' ''TissueA''"
    by (simp only: x(1) [symmetric])
  have nn: "net_nodes (build_network (quiet_world three_rows) ''GCH1'' three_rows [])
      = nodes_data net"
    and nl: "net_links (build_network (quiet_world three_rows) ''GCH1'' three_rows [])
      = links_data net"
    by (simp_all add: net_nodes_def net_links_def build)
  from s m l show ?thesis unfolding nn nl by (intro conjI)
qed

text \<open>
  Claim C8 as stated fails. In the table (A, g, 0.9), (B, g, 0.85) the symbol g passes
  the filter under both tissue labels. The output has one gene node g with the
  \<^verbatim>\<open>tissue\<close> attribute A, but g is linked to A and to B, and without noise its position
  is the one computed last, around the anchor of B at (400 cos phi, 400 sin phi).
\<close>

theorem shared_gene_two_tissues:
  "map node_id (net_nodes (build_network (quiet_world two_tissues) ''GCH1'' two_tissues []))
     = [''GCH1'', ''A'', ''B'', ''g'']
   \<and> net_nodes (build_network (quiet_world two_tissues) ''GCH1'' two_tissues []) ! 3
     = \<lparr>node_id = ''g'', node_name = ''g'', node_data = GeneData 0.9 (Some ''A''),
        node_size = 3, node_color = ''#4daf4a'',
        node_x = 400 * cos golden_angle + 72.5, node_y = 400 * sin golden_angle\<rparr>
   \<and> node_x (net_nodes (build_network (quiet_world two_tissues) ''GCH1'' two_tissues []) ! 2)
     = 400 * cos golden_angle
   \<and> node_y (net_nodes (build_network (quiet_world two_tissues) ''GCH1'' two_tissues []) ! 2)
     = 400 * sin golden_angle
   \<and> net_links (build_network (quiet_world two_tissues) ''GCH1'' two_tissues [])
     = [\<lparr>link_source = ''GCH1'', link_target = ''A'', link_value = 5\<rparr>,
        \<lparr>link_source = ''GCH1'', link_target = ''B'', link_value = 5\<rparr>,
        \<lparr>link_source = ''A'', link_target = ''g'', link_value = 0.9 * 3\<rparr>,
        \<lparr>link_source = ''B'', link_target = ''g'', link_value = 0.85 * 3\<rparr>]"
  by (simp add: net_nodes_def net_links_def layout_eval two_tissues_types two_tissues_counts
        two_tissues_sorted two_tissues_selection quiet_world_gauss)

end
